theory Spec2Isabelle
  imports Complex_Main
begin

section \<open>Values of the browser crawler\<close>

text \<open>
  The model follows \<^verbatim>\<open>src/crawlers/browser_crawler.js\<close>. Asynchronous functions are
  modelled in the order in which their \<^verbatim>\<open>await\<close>s complete inside one attempt; a raised
  error is the \<open>Inl\<close> branch of a result. Objects owned by collaborators (sessions, the
  browser controller, the page) are not inspected beyond what the crawler code reads:
  every method the crawler invokes on them is appended to a list of calls, and what the
  method returns or raises is given by the environment.
\<close>

subsection \<open>Numbers\<close>

text \<open>
  A JavaScript number: not-a-number, an infinity, or a finite double, given by its exact
  value. The two zeros are not told apart: they print alike and stay zero under the scaling
  used here.
\<close>

datatype number = NaN | PosInfinity | NegInfinity | Finite rat

text \<open>
  Rounding to the nearest double, ties to even. \<open>ulpFrom\<close> finds the spacing \<open>2^e\<close> of
  the doubles around \<open>x\<close>: the one that puts \<open>x / 2^e\<close> between \<open>2^52\<close> and \<open>2^53\<close>, and
  \<open>2^-1074\<close> for the subnormal numbers. The exponent of a double moves at most 1074 steps
  down and 972 steps up from 0, which the count allows for.
\<close>

fun ulpFrom :: "nat \<Rightarrow> rat \<Rightarrow> rat \<Rightarrow> int \<Rightarrow> rat \<times> int" where
  "ulpFrom 0 x u e = (u, e)"
| "ulpFrom (Suc fuel) x u e =
     (if 2 ^ 53 \<le> x / u then ulpFrom fuel x (2 * u) (e + 1)
      else if x / u < 2 ^ 52 \<and> - 1074 < e then ulpFrom fuel x (u / 2) (e - 1)
      else (u, e))"

definition roundHalfEven :: "rat \<Rightarrow> int" where
  "roundHalfEven q =
     (let n = \<lfloor>q\<rfloor>; r = q - of_int n
      in if r < 1 / 2 then n else if 1 / 2 < r then n + 1 else if even n then n else n + 1)"

text \<open>The double nearest to a rational; beyond the largest double it is an infinity.\<close>

definition toNumber :: "rat \<Rightarrow> number" where
  "toNumber x =
     (case ulpFrom 2200 \<bar>x\<bar> 1 0 of
        (u, e) \<Rightarrow>
          (let m = roundHalfEven (\<bar>x\<bar> / u)
           in if 971 < e \<or> (e = 971 \<and> m = 2 ^ 53)
              then (if x < 0 then NegInfinity else PosInfinity)
              else Finite (if x < 0 then - (of_int m * u) else of_int m * u)))"

text \<open>
  \<^verbatim>\<open>x * c\<close> for a positive constant \<open>c\<close>; with \<open>1 / c\<close> for \<open>c\<close> it is \<^verbatim>\<open>x / c\<close>: either
  is the exact result, rounded.
\<close>

definition scaled :: "number \<Rightarrow> rat \<Rightarrow> number" where
  "scaled x c = (case x of Finite r \<Rightarrow> toNumber (r * c) | other \<Rightarrow> other)"

subsection \<open>Objects\<close>

type_synonym session = string
  \<comment> \<open>a \<^verbatim>\<open>Session\<close> object, identified by its \<^verbatim>\<open>id\<close>\<close>

type_synonym cookie = "string \<times> string"

type_synonym goto_options = "(string \<times> string) list"
  \<comment> \<open>the entries of the \<^verbatim>\<open>gotoOptions\<close> object\<close>

datatype error =
    Error string
  | TypeError
  | ArgumentError
  | BlockedResponseError nat
  | TimeoutError string
  | Thrown string

text \<open>
  \<open>Error m\<close> is \<^verbatim>\<open>new Error(m)\<close> raised by the crawler itself, \<open>TypeError\<close> a member access
  on \<^verbatim>\<open>undefined\<close>, \<open>ArgumentError\<close> the rejection of the options by \<^verbatim>\<open>ow\<close>, and \<open>Thrown\<close>
  anything raised by a collaborator or by a user supplied function.
\<close>

datatype response = NoResponse | Malformed | StatusResponse nat

text \<open>
  What \<^verbatim>\<open>_responseHandler\<close> distinguishes in \<^verbatim>\<open>crawlingContext.response\<close>: a falsy value,
  a truthy value that is not an object with a \<^verbatim>\<open>status\<close> function, and an object whose
  \<^verbatim>\<open>status()\<close> returns the given code.
\<close>

datatype proxy_info = ProxyInfo (proxy_url: string) (proxy_sessionId: "string option")

record request =
  url :: string
  loadedUrl :: "string option"

record page =
  liveUrl :: string
  cookies :: "cookie list"

text \<open>\<open>liveUrl\<close> is what \<^verbatim>\<open>page.url()\<close> returns at the moment it is called.\<close>

text \<open>
  \<^verbatim>\<open>Request\<close> objects live in a store and are named by references: a hook may change the
  fields of the request the context refers to, or make the context refer to another one.
\<close>

type_synonym request_ref = nat

type_synonym request_store = "request_ref \<Rightarrow> request"

record crawling_context =
  ctxId :: string
  request :: request_ref
  session :: "session option"
  proxyInfo :: "proxy_info option"
  response :: response

datatype call =
    NewPage string
  | GetPuppeteerCookies session string
  | SetCookies "cookie list"
  | Hook nat goto_options
  | GotoFunction goto_options
  | SessionRetire session
  | LogDebug string
  | GetCookies
  | SetPuppeteerCookies session "cookie list" "string option"
  | HandlePageFunction
  | MarkGood session
  | PageClose

text \<open>
  The state one attempt works on: the crawling context, the request objects, the page
  acquired for the attempt (the object both the local \<^verbatim>\<open>page\<close> and \<^verbatim>\<open>crawlingContext.page\<close>
  refer to), the \<^verbatim>\<open>gotoOptions\<close> clone made by \<^verbatim>\<open>_handleNavigation\<close>, and the calls made
  so far (oldest first). User supplied functions change the first four and cannot reach the
  last.
  \<open>Hook i g\<close> is the call of the hook at position \<open>i\<close> of its list and \<open>GotoFunction g\<close>
  the call of the navigation function, both with the \<^verbatim>\<open>gotoOptions\<close> as they are at the call.
\<close>

record world =
  crawlingContext :: crawling_context
  requests :: request_store
  page :: page
  gotoOptions :: goto_options
  calls :: "call list"

type_synonym 'a action = "world \<Rightarrow> (error + 'a) \<times> world"

type_synonym user_state = "crawling_context \<times> request_store \<times> page \<times> goto_options"

type_synonym hook = "user_state \<Rightarrow> (error + unit) \<times> user_state"

type_synonym goto_function = "user_state \<Rightarrow> (error + response) \<times> user_state"

datatype promise = Resolved | Rejected error | Pending

text \<open>
  The promise returned by the page handler as \<^verbatim>\<open>addTimeoutToPromise\<close> sees it: settled
  (fulfilled or rejected) before the timer fires, or still \<open>Pending\<close> when it fires.
\<close>

type_synonym handle_page_function =
  "crawling_context \<times> request_store \<times> page
     \<Rightarrow> promise \<times> crawling_context \<times> request_store \<times> page"

datatype launch_hook = ExtendLaunchContext | MaybeAddSessionRetiredListener | UserLaunchHook string

record browser_pool =
  preLaunchHooks :: "launch_hook list"
  postLaunchHooks :: "launch_hook list"

record session_pool =
  maxListeners :: nat

record proxy_configuration =
  newProxyInfo :: "string option \<Rightarrow> error + proxy_info"

record crawler =
  handlePageFunction :: handle_page_function
  handlePageTimeoutSecs :: number
  handlePageTimeoutMillis :: number
  gotoFunction :: "goto_function option"
  crawlerGotoOptions :: goto_options
  persistCookiesPerSession :: bool
  proxyConfiguration :: "proxy_configuration option"
  preNavigationHooks :: "hook list"
  postNavigationHooks :: "hook list"
  sessionPool :: "session_pool option"
  browserPool :: browser_pool

record env =
  requestStore :: request_store
  newPage :: "string \<Rightarrow> error + page"
  launchSession :: "session option"
  launchProxyInfo :: "proxy_info option"
  getPuppeteerCookies :: "session \<Rightarrow> string \<Rightarrow> cookie list"
  setCookies :: "page \<Rightarrow> cookie list \<Rightarrow> error + page"
  getCookies :: "page \<Rightarrow> error + cookie list"
  setPuppeteerCookies :: "session \<Rightarrow> cookie list \<Rightarrow> string option \<Rightarrow> error + unit"
  closePage :: "page \<Rightarrow> error + unit"
  blockedStatusCodes :: "nat list"

text \<open>
  The collaborators of one attempt: the request objects as they are when the attempt starts;
  \<^verbatim>\<open>browserPool.newPage\<close>; the \<^verbatim>\<open>session\<close> and
  \<^verbatim>\<open>proxyInfo\<close> of the launch context of the controller that owns the page; the session's
  cookie jar (\<^verbatim>\<open>getPuppeteerCookies\<close>, \<^verbatim>\<open>setPuppeteerCookies\<close>); the browser controller's
  \<^verbatim>\<open>setCookies\<close> and \<^verbatim>\<open>getCookies\<close>; \<^verbatim>\<open>page.close\<close>; and the status codes the
  session treats as blocked. Each may raise where its type has an error branch.
\<close>

section \<open>Helpers imported by the crawler\<close>

definition called :: "call \<Rightarrow> world \<Rightarrow> world" where
  "called c w = w\<lparr>calls := calls w @ [c]\<rparr>"

text \<open>
  Modelled from the spec: \<^verbatim>\<open>throwOnBlockedRequest\<close> of \<^verbatim>\<open>crawler_utils\<close> is not among the
  sources. The spec: if the status is a member of the configured blocked status set, the
  session is retired and the attempt fails with a blocked-response error; otherwise no
  action. Calling it without a session is a member access on \<^verbatim>\<open>undefined\<close>.
\<close>

definition throwOnBlockedRequest :: "env \<Rightarrow> session option \<Rightarrow> nat \<Rightarrow> unit action" where
  "throwOnBlockedRequest env sess statusCode w =
     (case sess of
        None \<Rightarrow> (Inl TypeError, w)
      | Some s \<Rightarrow>
          if statusCode \<in> set (blockedStatusCodes env)
          then (Inl (BlockedResponseError statusCode), called (SessionRetire s) w)
          else (Inr (), w))"

text \<open>
  Modelled from the spec: \<^verbatim>\<open>addTimeoutToPromise\<close> of \<^verbatim>\<open>utils\<close> is not among the sources.
  The spec: the handler runs under a timeout; when it exceeds the timeout the attempt fails
  with a timeout error that carries the message passed in; otherwise the handler's own
  outcome stands.
\<close>

definition addTimeoutToPromise :: "promise \<Rightarrow> number \<Rightarrow> string \<Rightarrow> error + unit" where
  "addTimeoutToPromise p timeoutMillis errorMessage =
     (case p of
        Resolved \<Rightarrow> Inr ()
      | Rejected e \<Rightarrow> Inl e
      | Pending \<Rightarrow> Inl (TimeoutError errorMessage))"

subsection \<open>Numbers in template literals\<close>

text \<open>Decimal digits of a natural number.\<close>

definition digit :: "nat \<Rightarrow> char" where
  "digit d = ''0123456789'' ! (d mod 10)"

function decimal :: "nat \<Rightarrow> string" where
  "decimal n = (if n < 10 then [digit n] else decimal (n div 10) @ [digit n])"
  by pat_completeness auto
termination
  by (relation "measure id") auto

declare decimal.simps [simp del]

text \<open>
  \<^verbatim>\<open>Number::toString\<close> of the language: for a positive double \<open>x\<close>, integers \<open>s\<close>, \<open>k\<close> and \<open>n\<close>
  with \<open>s\<close> of \<open>k\<close> digits, \<open>s * 10^(n - k)\<close> rounding to \<open>x\<close> and \<open>k\<close> as small as possible
  (of two such \<open>s\<close> the one nearer to \<open>x\<close>); then the digits of \<open>s\<close>, with zeros, a point or an
  exponent placed according to \<open>n\<close>. No double needs more than 17 digits, and the decimal
  point of a double lies within 400 places of its first digit.
\<close>

fun digitsOf :: "nat \<Rightarrow> int \<Rightarrow> string" where
  "digitsOf 0 s = []"
| "digitsOf (Suc k) s = digitsOf k (s div 10) @ [digit (nat (s mod 10))]"

definition pow10 :: "int \<Rightarrow> rat" where
  "pow10 n = (if 0 \<le> n then 10 ^ nat n else 1 / 10 ^ nat (- n))"

fun decimalPoint :: "nat \<Rightarrow> rat \<Rightarrow> int \<Rightarrow> int" where
  "decimalPoint 0 x n = n"
| "decimalPoint (Suc fuel) x n =
     (if pow10 n \<le> x then decimalPoint fuel x (n + 1)
      else if x < pow10 (n - 1) then decimalPoint fuel x (n - 1)
      else n)"

definition represents :: "rat \<Rightarrow> nat \<Rightarrow> int \<times> int \<Rightarrow> bool" where
  "represents x k c = (case c of (s, n) \<Rightarrow> toNumber (of_int s * pow10 (n - int k)) = Finite x)"

definition candidates :: "rat \<Rightarrow> int \<Rightarrow> nat \<Rightarrow> (int \<times> int) list" where
  "candidates x n k =
     (let s = \<lfloor>x / pow10 (n - int k)\<rfloor>
      in filter (represents x k)
           [(s, n), if s + 1 = 10 ^ k then (10 ^ (k - 1), n + 1) else (s + 1, n)])"

definition closest :: "rat \<Rightarrow> nat \<Rightarrow> (int \<times> int) list \<Rightarrow> (int \<times> int) option" where
  "closest x k cs =
     (case cs of
        [] \<Rightarrow> None
      | [c] \<Rightarrow> Some c
      | (s, n) # (s', n') # _ \<Rightarrow>
          (let d = x - of_int s * pow10 (n - int k); d' = of_int s' * pow10 (n' - int k) - x
           in if d < d' then Some (s, n) else if d' < d then Some (s', n')
              else if even s then Some (s, n) else Some (s', n')))"

fun shortest :: "nat \<Rightarrow> rat \<Rightarrow> int \<Rightarrow> nat \<Rightarrow> int \<times> nat \<times> int" where
  "shortest 0 x n k = (\<lfloor>x / pow10 (n - int k)\<rfloor>, k, n)"
| "shortest (Suc fuel) x n k =
     (case closest x k (candidates x n k) of
        Some (s, n') \<Rightarrow> (s, k, n')
      | None \<Rightarrow> shortest fuel x n (Suc k))"

definition formatDigits :: "int \<Rightarrow> nat \<Rightarrow> int \<Rightarrow> string" where
  "formatDigits s k n =
     (let ds = digitsOf k s
      in if int k \<le> n \<and> n \<le> 21 then ds @ replicate (nat (n - int k)) CHR ''0''
         else if 0 < n \<and> n \<le> 21 then take (nat n) ds @ ''.'' @ drop (nat n) ds
         else if - 6 < n \<and> n \<le> 0 then ''0.'' @ replicate (nat (- n)) CHR ''0'' @ ds
         else (let e = n - 1;
                   es = (if 0 \<le> e then ''+'' else ''-'') @ decimal (nat \<bar>e\<bar>)
               in if k = 1 then ds @ ''e'' @ es
                  else take 1 ds @ ''.'' @ drop 1 ds @ ''e'' @ es))"

definition positiveToString :: "rat \<Rightarrow> string" where
  "positiveToString x =
     (case shortest 17 x (decimalPoint 700 x 0) 1 of (s, k, n) \<Rightarrow> formatDigits s k n)"

definition numberToString :: "number \<Rightarrow> string" where
  "numberToString x =
     (case x of
        NaN \<Rightarrow> ''NaN''
      | PosInfinity \<Rightarrow> ''Infinity''
      | NegInfinity \<Rightarrow> ''-Infinity''
      | Finite r \<Rightarrow>
          if r = 0 then ''0''
          else if r < 0 then ''-'' @ positiveToString (- r)
          else positiveToString r)"

section \<open>The attempt: \<^verbatim>\<open>_handleRequestFunction\<close> and its stages\<close>

text \<open>What a hook or the navigation function is called with and may change.\<close>

definition userState :: "world \<Rightarrow> user_state" where
  "userState w = (crawlingContext w, requests w, page w, gotoOptions w)"

text \<open>The \<^verbatim>\<open>Request\<close> object the crawling context refers to at the moment.\<close>

definition currentRequest :: "world \<Rightarrow> request" where
  "currentRequest w = requests w (request (crawlingContext w))"

definition callHook :: "nat \<Rightarrow> hook \<Rightarrow> unit action" where
  "callHook i hook w =
     (case hook (userState w) of
        (r, (c, rs, p, g)) \<Rightarrow>
          (r, w\<lparr>crawlingContext := c, requests := rs, page := p, gotoOptions := g,
                 calls := calls w @ [Hook i (gotoOptions w)]\<rparr>))"

fun forHooks :: "(nat \<times> hook) list \<Rightarrow> unit action" where
  "forHooks [] w = (Inr (), w)"
| "forHooks ((i, hook) # rest) w =
     (case callHook i hook w of
        (Inl e, w') \<Rightarrow> (Inl e, w')
      | (Inr _, w') \<Rightarrow> forHooks rest w')"

definition executeHooks :: "hook list \<Rightarrow> unit action" where
  "executeHooks hooks w =
     (if hooks \<noteq> [] then forHooks (enumerate 0 hooks) w else (Inr (), w))"

definition navigationHandler :: "crawler \<Rightarrow> response action" where
  "navigationHandler crawler w =
     (case gotoFunction crawler of
        None \<Rightarrow> (Inl (Error ''BrowserCrawler: You must specify a gotoFunction!''), w)
      | Some goto \<Rightarrow>
          (case goto (userState w) of
             (r, (c, rs, p, g)) \<Rightarrow>
               (r, w\<lparr>crawlingContext := c, requests := rs, page := p, gotoOptions := g,
                      calls := calls w @ [GotoFunction (gotoOptions w)]\<rparr>)))"

definition handleNavigation :: "crawler \<Rightarrow> unit action" where
  "handleNavigation crawler w =
     (case executeHooks (preNavigationHooks crawler)
             (w\<lparr>gotoOptions := crawlerGotoOptions crawler\<rparr>) of
        (Inl e, w1) \<Rightarrow> (Inl e, w1)
      | (Inr _, w1) \<Rightarrow>
          (case navigationHandler crawler w1 of
             (Inl e, w2) \<Rightarrow> (Inl e, w2)
           | (Inr resp, w2) \<Rightarrow>
               executeHooks (postNavigationHooks crawler)
                 (w2\<lparr>crawlingContext := (crawlingContext w2)\<lparr>response := resp\<rparr>\<rparr>)))"

definition responseHandler :: "crawler \<Rightarrow> env \<Rightarrow> unit action" where
  "responseHandler crawler env w =
     (case (if sessionPool crawler \<noteq> None \<and> response (crawlingContext w) \<noteq> NoResponse
            then (case response (crawlingContext w) of
                    StatusResponse st \<Rightarrow> throwOnBlockedRequest env (session (crawlingContext w)) st w
                  | _ \<Rightarrow> (Inr (), called (LogDebug ''Got a malformed Browser response.'') w))
            else (Inr (), w)) of
        (Inl e, w1) \<Rightarrow> (Inl e, w1)
      | (Inr _, w1) \<Rightarrow>
          (Inr (), w1\<lparr>requests := (requests w1)
                        (request (crawlingContext w1) :=
                           (currentRequest w1)\<lparr>loadedUrl := Some (liveUrl (page w1))\<rparr>)\<rparr>))"

text \<open>
  Lines 352 to 355, which come before the \<^verbatim>\<open>try\<close>. No hook has run yet: the local
  \<^verbatim>\<open>request\<close> bound at line 350 is the request of the context.
\<close>

definition restoreCookies :: "crawler \<Rightarrow> env \<Rightarrow> unit action" where
  "restoreCookies crawler env w =
     (if persistCookiesPerSession crawler
      then (case session (crawlingContext w) of
              None \<Rightarrow> (Inl TypeError, w)
            | Some s \<Rightarrow>
                (let u = url (currentRequest w);
                     cs = getPuppeteerCookies env s u;
                     w1 = called (SetCookies cs) (called (GetPuppeteerCookies s u) w)
                 in case setCookies env (page w1) cs of
                      Inl e \<Rightarrow> (Inl e, w1)
                    | Inr p \<Rightarrow> (Inr (), w1\<lparr>page := p\<rparr>)))
      else (Inr (), w))"

text \<open>
  Lines 364 to 367; \<open>sess\<close> and \<open>req\<close> are the locals \<^verbatim>\<open>session\<close> and \<^verbatim>\<open>request\<close> that
  \<^verbatim>\<open>_handleRequestFunction\<close> bound at line 350, before any hook ran.
\<close>

definition saveCookies ::
  "crawler \<Rightarrow> env \<Rightarrow> session option \<Rightarrow> request_ref \<Rightarrow> unit action" where
  "saveCookies crawler env sess req w =
     (if persistCookiesPerSession crawler
      then (case getCookies env (page w) of
              Inl e \<Rightarrow> (Inl e, called GetCookies w)
            | Inr cs \<Rightarrow>
                (case sess of
                   None \<Rightarrow> (Inl TypeError, called GetCookies w)
                 | Some s \<Rightarrow>
                     (let lu = loadedUrl (requests w req)
                      in (setPuppeteerCookies env s cs lu,
                          called (SetPuppeteerCookies s cs lu) (called GetCookies w)))))
      else (Inr (), w))"

text \<open>The message of line 372: it prints \<^verbatim>\<open>this.handlePageTimeoutMillis / 1000\<close>.\<close>

definition timeoutMessage :: "crawler \<Rightarrow> string" where
  "timeoutMessage crawler =
     ''handlePageFunction timed out after ''
       @ numberToString (scaled (handlePageTimeoutMillis crawler) (1 / 1000)) @ '' seconds.''"

definition runHandlePageFunction :: "crawler \<Rightarrow> unit action" where
  "runHandlePageFunction crawler w =
     (case handlePageFunction crawler (crawlingContext w, requests w, page w) of
        (p, (c, rs, pg)) \<Rightarrow>
          (addTimeoutToPromise p (handlePageTimeoutMillis crawler) (timeoutMessage crawler),
           w\<lparr>crawlingContext := c, requests := rs, page := pg,
             calls := calls w @ [HandlePageFunction]\<rparr>))"

definition markGood :: "session option \<Rightarrow> unit action" where
  "markGood sess w = (case sess of None \<Rightarrow> (Inr (), w) | Some s \<Rightarrow> (Inr (), called (MarkGood s) w))"

text \<open>The body of the \<^verbatim>\<open>try\<close> (lines 358 to 375) and the \<^verbatim>\<open>finally\<close> (lines 377 to 382).\<close>

definition tryBlock ::
  "crawler \<Rightarrow> env \<Rightarrow> session option \<Rightarrow> request_ref \<Rightarrow> unit action" where
  "tryBlock crawler env sess req w =
     (case handleNavigation crawler w of
        (Inl e, w1) \<Rightarrow> (Inl e, w1)
      | (Inr _, w1) \<Rightarrow>
          (case responseHandler crawler env w1 of
             (Inl e, w2) \<Rightarrow> (Inl e, w2)
           | (Inr _, w2) \<Rightarrow>
               (case saveCookies crawler env sess req w2 of
                  (Inl e, w3) \<Rightarrow> (Inl e, w3)
                | (Inr _, w3) \<Rightarrow>
                    (case runHandlePageFunction crawler w3 of
                       (Inl e, w4) \<Rightarrow> (Inl e, w4)
                     | (Inr _, w4) \<Rightarrow> markGood sess w4))))"

definition finallyBlock :: "env \<Rightarrow> world \<Rightarrow> world" where
  "finallyBlock env w =
     (case closePage env (page w) of
        Inl e \<Rightarrow> called (LogDebug ''Error while closing page'') (called PageClose w)
      | Inr _ \<Rightarrow> called PageClose w)"

definition enhanceCrawlingContextWithPageInfo :: "env \<Rightarrow> crawling_context \<Rightarrow> crawling_context" where
  "enhanceCrawlingContextWithPageInfo env ctx =
     ctx\<lparr>session := launchSession env, proxyInfo := launchProxyInfo env\<rparr>"

text \<open>The state right after \<^verbatim>\<open>_enhanceCrawlingContextWithPageInfo\<close>, for the page \<open>p\<close>.\<close>

definition acquired :: "env \<Rightarrow> crawling_context \<Rightarrow> page \<Rightarrow> world" where
  "acquired env ctx p =
     \<lparr>crawlingContext = enhanceCrawlingContextWithPageInfo env ctx,
      requests = requestStore env, page = p, gotoOptions = [],
      calls = [NewPage (ctxId ctx)]\<rparr>"

text \<open>
  The result of an attempt and the state it leaves; no state when no page was acquired.
  The locals \<^verbatim>\<open>request\<close> and \<^verbatim>\<open>session\<close> are read once, after the context was enhanced.
\<close>

definition handleRequestFunction ::
  "crawler \<Rightarrow> env \<Rightarrow> crawling_context \<Rightarrow> (error + unit) \<times> world option" where
  "handleRequestFunction crawler env ctx =
     (case newPage env (ctxId ctx) of
        Inl e \<Rightarrow> (Inl e, None)
      | Inr p \<Rightarrow>
          (let w0 = acquired env ctx p;
               req = request (crawlingContext w0);
               sess = session (crawlingContext w0)
           in case restoreCookies crawler env w0 of
                (Inl e, w1) \<Rightarrow> (Inl e, Some w1)
              | (Inr _, w1) \<Rightarrow>
                  (case tryBlock crawler env sess req w1 of
                     (r, w2) \<Rightarrow> (r, Some (finallyBlock env w2)))))"

section \<open>The constructor\<close>

record browser_pool_options =
  preLaunchHooksOption :: "launch_hook list option"
  postLaunchHooksOption :: "launch_hook list option"

text \<open>
  The options object. A field of type \<open>option\<close> may be left out. \<open>basicCrawlerOptionsValid\<close>
  says whether the remaining fields satisfy \<^verbatim>\<open>BasicCrawler.optionsShape\<close>, which is not among
  the sources.
\<close>

record options =
  handlePageFunctionOption :: "handle_page_function option"
  handlePageTimeoutSecsOption :: "number option"
  gotoFunctionOption :: "goto_function option"
  persistCookiesPerSessionOption :: "bool option"
  useSessionPoolOption :: "bool option"
  proxyConfigurationOption :: "proxy_configuration option"
  browserPoolOptionsOption :: "browser_pool_options option"
  preNavigationHooksOption :: "hook list option"
  postNavigationHooksOption :: "hook list option"
  basicCrawlerOptionsValid :: bool

text \<open>What the constructor creates, in order; the number is \<^verbatim>\<open>handleRequestTimeoutSecs\<close>.\<close>

datatype construction = BasicCrawlerSuper number | NewSessionPool | NewBrowserPool

definition orDefault :: "'a option \<Rightarrow> 'a \<Rightarrow> 'a" where
  "orDefault v d = (case v of None \<Rightarrow> d | Some x \<Rightarrow> x)"

definition owShape :: "options \<Rightarrow> bool" where
  "owShape opts \<longleftrightarrow>
     basicCrawlerOptionsValid opts \<and> handlePageFunctionOption opts \<noteq> None
       \<and> browserPoolOptionsOption opts \<noteq> None"

definition persistCookiesMessage :: string where
  "persistCookiesMessage =
     ''You cannot use '' @ [CHR 0x22] @ ''persistCookiesPerSession'' @ [CHR 0x22] @ '' without ''
       @ [CHR 0x22] @ ''useSessionPool'' @ [CHR 0x22] @ '' set to true.''"

text \<open>
  \<open>multiplier\<close> is \<^verbatim>\<open>BASIC_CRAWLER_TIMEOUT_MULTIPLIER\<close> of \<^verbatim>\<open>constants\<close>, a positive
  number.
\<close>

definition constructor :: "rat \<Rightarrow> options \<Rightarrow> (error + crawler) \<times> construction list" where
  "constructor multiplier opts =
     (case (handlePageFunctionOption opts, browserPoolOptionsOption opts) of
        (Some handler, Some browserPoolOptions) \<Rightarrow>
          if \<not> owShape opts then (Inl ArgumentError, [])
          else
            (let secs = orDefault (handlePageTimeoutSecsOption opts) (Finite 60);
                 persist = orDefault (persistCookiesPerSessionOption opts) True;
                 useSessionPool = orDefault (useSessionPoolOption opts) True
             in if \<not> useSessionPool \<and> persist then (Inl (Error persistCookiesMessage), [])
                else
                  (Inr \<lparr>handlePageFunction = handler,
                        handlePageTimeoutSecs = secs,
                        handlePageTimeoutMillis = scaled secs 1000,
                        gotoFunction = gotoFunctionOption opts,
                        crawlerGotoOptions = [],
                        persistCookiesPerSession = persist,
                        proxyConfiguration = proxyConfigurationOption opts,
                        preNavigationHooks = orDefault (preNavigationHooksOption opts) [],
                        postNavigationHooks = orDefault (postNavigationHooksOption opts) [],
                        sessionPool =
                          (if useSessionPool then Some \<lparr>maxListeners = 20\<rparr> else None),
                        browserPool =
                          \<lparr>preLaunchHooks =
                             ExtendLaunchContext
                               # orDefault (preLaunchHooksOption browserPoolOptions) [],
                           postLaunchHooks =
                             MaybeAddSessionRetiredListener
                               # orDefault (postLaunchHooksOption browserPoolOptions) []\<rparr>\<rparr>,
                   [BasicCrawlerSuper (scaled secs multiplier)]
                     @ (if useSessionPool then [NewSessionPool] else [])
                     @ [NewBrowserPool]))
      | _ \<Rightarrow> (Inl ArgumentError, []))"

section \<open>Launch contexts: \<^verbatim>\<open>_extendLaunchContext\<close>\<close>

datatype launch_value =
    SessionValue session
  | ProxyInfoValue proxy_info
  | StringValue string
  | BoolValue bool

type_synonym launch_context = "string \<rightharpoonup> launch_value"

text \<open>
  \<^verbatim>\<open>LaunchContext.extend\<close> belongs to the browser-pool package: it adds the given entries
  one after the other and refuses a key the launch context already has.
\<close>

fun extendWith :: "launch_context \<Rightarrow> (string \<times> launch_value) list \<Rightarrow> (error + unit) \<times> launch_context" where
  "extendWith lc [] = (Inr (), lc)"
| "extendWith lc ((k, v) # entries) =
     (if lc k \<noteq> None then (Inl (Error (''Cannot extend LaunchContext with key: '' @ k)), lc)
      else extendWith (lc(k \<mapsto> v)) entries)"

datatype pool_call = GetSession | NewProxyInfo "string option"

text \<open>
  \<open>getSession\<close> is what \<^verbatim>\<open>this.sessionPool.getSession()\<close> gives at this launch. The result
  holds the launch context as the hook leaves it and the calls it made.
\<close>

definition extendLaunchContext ::
  "crawler \<Rightarrow> error + session \<Rightarrow> launch_context
     \<Rightarrow> (error + unit) \<times> launch_context \<times> pool_call list" where
  "extendLaunchContext crawler getSession launchContext =
     (case (if sessionPool crawler \<noteq> None
            then (case getSession of
                    Inl e \<Rightarrow> Inl e
                  | Inr s \<Rightarrow> Inr (Some s, [GetSession]))
            else Inr (None, [])) of
        Inl e \<Rightarrow> (Inl e, launchContext, [GetSession])
      | Inr (sess, cs) \<Rightarrow>
          (let sessionEntry = (case sess of None \<Rightarrow> [] | Some s \<Rightarrow> [(''session'', SessionValue s)])
           in case proxyConfiguration crawler of
                None \<Rightarrow>
                  (case extendWith launchContext sessionEntry of (r, lc) \<Rightarrow> (r, lc, cs))
              | Some pc \<Rightarrow>
                  (case newProxyInfo pc sess of
                     Inl e \<Rightarrow> (Inl e, launchContext, cs @ [NewProxyInfo sess])
                   | Inr info \<Rightarrow>
                       (case extendWith (launchContext(''proxyUrl'' \<mapsto> StringValue (proxy_url info)))
                               (sessionEntry @ [(''proxyInfo'', ProxyInfoValue info)]) of
                          (r, lc) \<Rightarrow> (r, lc, cs @ [NewProxyInfo sess])))))"

section \<open>Session retirement: \<^verbatim>\<open>_maybeAddSessionRetiredListener\<close>\<close>


record browser_controller =
  launchContext :: launch_context
  browserClosedHandlers :: "nat list"








section \<open>Example inputs\<close>

definition examplePage :: page where
  "examplePage = \<lparr>liveUrl = ''about:blank'', cookies = []\<rparr>"

text \<open>Every request asks for the same url and has not been loaded; the attempt is for request 0.\<close>

definition exampleRequests :: request_store where
  "exampleRequests = (\<lambda>r. \<lparr>url = ''http://example.com/'', loadedUrl = None\<rparr>)"

definition exampleContext :: crawling_context where
  "exampleContext =
     \<lparr>ctxId = ''attempt-1'', request = 0,
      session = None, proxyInfo = None, response = NoResponse\<rparr>"

text \<open>A navigation function that is redirected and answers with the given status.\<close>

definition redirectingGoto :: "nat \<Rightarrow> goto_function" where
  "redirectingGoto status =
     (\<lambda>(c, rs, p, g). (Inr (StatusResponse status),
        (c, rs, p\<lparr>liveUrl := ''http://example.com/landing'', cookies := [(''sid'', ''42'')]\<rparr>,
         g)))"

definition settlesAs :: "promise \<Rightarrow> handle_page_function" where
  "settlesAs outcome = (\<lambda>(c, rs, p). (outcome, c, rs, p))"

definition setHeader :: hook where
  "setHeader = (\<lambda>(c, rs, p, g). (Inr (), (c, rs, p, g @ [(''x-test'', ''1'')])))"

definition requireHeader :: hook where
  "requireHeader =
     (\<lambda>(c, rs, p, g).
        (if map_of g ''x-test'' = Some ''1'' then Inr () else Inl (Thrown ''no header''),
         (c, rs, p, g)))"

definition failingHook :: hook where
  "failingHook = (\<lambda>u. (Inl (Thrown ''hook failed''), u))"

text \<open>A hook that makes the crawling context refer to another request object.\<close>

definition replaceRequest :: hook where
  "replaceRequest = (\<lambda>(c, rs, p, g). (Inr (), (c\<lparr>request := 1\<rparr>, rs, p, g)))"

definition exampleOptions :: "promise \<Rightarrow> nat \<Rightarrow> bool \<Rightarrow> hook list \<Rightarrow> options" where
  "exampleOptions outcome status pool hooks =
     \<lparr>handlePageFunctionOption = Some (settlesAs outcome),
      handlePageTimeoutSecsOption = Some (Finite 1),
      gotoFunctionOption = Some (redirectingGoto status),
      persistCookiesPerSessionOption = Some pool,
      useSessionPoolOption = Some pool,
      proxyConfigurationOption = None,
      browserPoolOptionsOption = Some \<lparr>preLaunchHooksOption = None, postLaunchHooksOption = None\<rparr>,
      preNavigationHooksOption = Some hooks,
      postNavigationHooksOption = None,
      basicCrawlerOptionsValid = True\<rparr>"

definition exampleCrawler :: "promise \<Rightarrow> nat \<Rightarrow> bool \<Rightarrow> hook list \<Rightarrow> crawler" where
  "exampleCrawler outcome status pool hooks =
     \<lparr>handlePageFunction = settlesAs outcome,
      handlePageTimeoutSecs = Finite 1,
      handlePageTimeoutMillis = Finite 1000,
      gotoFunction = Some (redirectingGoto status),
      crawlerGotoOptions = [],
      persistCookiesPerSession = pool,
      proxyConfiguration = None,
      preNavigationHooks = hooks,
      postNavigationHooks = [],
      sessionPool = (if pool then Some \<lparr>maxListeners = 20\<rparr> else None),
      browserPool = \<lparr>preLaunchHooks = [ExtendLaunchContext],
                     postLaunchHooks = [MaybeAddSessionRetiredListener]\<rparr>\<rparr>"

definition exampleEnv :: "bool \<Rightarrow> env" where
  "exampleEnv pool =
     \<lparr>requestStore = exampleRequests,
      newPage = (\<lambda>i. Inr examplePage),
      launchSession = (if pool then Some ''session-1'' else None),
      launchProxyInfo = None,
      getPuppeteerCookies = (\<lambda>s u. []),
      setCookies = (\<lambda>p cs. Inr (p\<lparr>cookies := cs @ cookies p\<rparr>)),
      getCookies = (\<lambda>p. Inr (cookies p)),
      setPuppeteerCookies = (\<lambda>s cs u. Inr ()),
      closePage = (\<lambda>p. Inr ()),
      blockedStatusCodes = [401, 403, 429]\<rparr>"

text \<open>The same environment with a browser controller that cannot set cookies.\<close>

definition brokenCookiesEnv :: env where
  "brokenCookiesEnv = (exampleEnv True)\<lparr>setCookies := (\<lambda>p cs. Inl (Thrown ''setCookies failed''))\<rparr>"

text \<open>
  The states the example attempt with a session pool passes through: after cookie restore,
  after a navigation answered with the given status, after response handling, and after
  cookie capture.
\<close>

definition exampleRestored :: world where
  "exampleRestored =
     \<lparr>crawlingContext = exampleContext\<lparr>session := Some ''session-1''\<rparr>,
      requests = exampleRequests, page = examplePage, gotoOptions = [],
      calls = [NewPage ''attempt-1'',
               GetPuppeteerCookies ''session-1'' ''http://example.com/'',
               SetCookies []]\<rparr>"

definition exampleNavigated :: "nat \<Rightarrow> world" where
  "exampleNavigated status =
     \<lparr>crawlingContext = exampleContext\<lparr>session := Some ''session-1'',
                                         response := StatusResponse status\<rparr>,
      requests = exampleRequests,
      page = \<lparr>liveUrl = ''http://example.com/landing'', cookies = [(''sid'', ''42'')]\<rparr>,
      gotoOptions = [],
      calls = calls exampleRestored @ [GotoFunction []]\<rparr>"

definition exampleClassified :: "nat \<Rightarrow> world" where
  "exampleClassified status =
     (exampleNavigated status)
       \<lparr>requests := exampleRequests
          (0 := \<lparr>url = ''http://example.com/'',
                  loadedUrl = Some ''http://example.com/landing''\<rparr>)\<rparr>"

definition exampleCaptured :: "nat \<Rightarrow> world" where
  "exampleCaptured status =
     (exampleClassified status)
       \<lparr>calls := calls (exampleClassified status)
          @ [GetCookies,
             SetPuppeteerCookies ''session-1'' [(''sid'', ''42'')]
               (Some ''http://example.com/landing'')]\<rparr>"

text \<open>
  The state after the hooks \<open>[setHeader, requireHeader]\<close> ran on \<open>exampleRestored\<close>, and
  the state after \<open>failingHook\<close> ran on it.
\<close>

definition exampleHooked :: world where
  "exampleHooked =
     exampleRestored
       \<lparr>gotoOptions := [(''x-test'', ''1'')],
        calls := calls exampleRestored @ [Hook 0 [], Hook 1 [(''x-test'', ''1'')]]\<rparr>"

definition exampleHookFailed :: world where
  "exampleHookFailed = exampleRestored\<lparr>calls := calls exampleRestored @ [Hook 0 []]\<rparr>"

text \<open>
  A crawler with post-navigation hooks, and the state in which its second post-navigation
  hook raises.
\<close>

definition postHookCrawler :: crawler where
  "postHookCrawler =
     (exampleCrawler Resolved 200 True [setHeader])
       \<lparr>postNavigationHooks := [requireHeader, failingHook]\<rparr>"

definition examplePostHookFailed :: world where
  "examplePostHookFailed =
     (exampleNavigated 200)
       \<lparr>gotoOptions := [(''x-test'', ''1'')],
        calls := calls exampleRestored
          @ [Hook 0 [], GotoFunction [(''x-test'', ''1'')],
             Hook 0 [(''x-test'', ''1'')], Hook 1 [(''x-test'', ''1'')]]\<rparr>"

text \<open>A crawler whose timeout is a large whole number of seconds.\<close>

definition longTimeoutOptions :: options where
  "longTimeoutOptions =
     (exampleOptions Pending 200 True [])
       \<lparr>handlePageTimeoutSecsOption := Some (Finite 123456789012345)\<rparr>"

definition longTimeoutCrawler :: crawler where
  "longTimeoutCrawler =
     (exampleCrawler Pending 200 True [])
       \<lparr>handlePageTimeoutSecs := Finite 123456789012345,
        handlePageTimeoutMillis := Finite 123456789012344992\<rparr>"

text \<open>A proxy configuration that derives the proxy url from the session id.\<close>

definition exampleProxyConfiguration :: proxy_configuration where
  "exampleProxyConfiguration =
     \<lparr>newProxyInfo = (\<lambda>sessionId.
        Inr (ProxyInfo (''http://proxy.example.com/'' @ (case sessionId of None \<Rightarrow> ''auto'' | Some i \<Rightarrow> i))
               sessionId))\<rparr>"

definition proxiedCrawler :: crawler where
  "proxiedCrawler =
     (exampleCrawler Resolved 200 True [])\<lparr>proxyConfiguration := Some exampleProxyConfiguration\<rparr>"


text \<open>
  What the spec asks of a list of hooks: they are applied one after the other in the order
  of the list, each to the state the one before it left.
\<close>

definition afterHooks :: "hook list \<Rightarrow> user_state \<Rightarrow> user_state" where
  "afterHooks hooks u = foldl (\<lambda>u hook. snd (hook u)) u hooks"

text \<open>
  The \<^verbatim>\<open>gotoOptions\<close> of a state; the outcome of the hook at position \<open>i\<close> on the state
  the hooks before it left; all hooks of a list return; the hook at position \<open>j\<close> is the
  first one that raises, and it raises \<open>e\<close>.
\<close>

definition optionsOf :: "user_state \<Rightarrow> goto_options" where
  "optionsOf u = snd (snd (snd u))"

definition hookOutcome :: "hook list \<Rightarrow> user_state \<Rightarrow> nat \<Rightarrow> error + unit" where
  "hookOutcome hooks u i = fst ((hooks ! i) (afterHooks (take i hooks) u))"

definition allReturn :: "hook list \<Rightarrow> user_state \<Rightarrow> bool" where
  "allReturn hooks u \<longleftrightarrow> list_all (\<lambda>i. hookOutcome hooks u i = Inr ()) [0..<length hooks]"

definition firstRaise :: "hook list \<Rightarrow> user_state \<Rightarrow> nat \<Rightarrow> error \<Rightarrow> bool" where
  "firstRaise hooks u j e \<longleftrightarrow>
     j < length hooks \<and> list_all (\<lambda>i. hookOutcome hooks u i = Inr ()) [0..<j]
       \<and> hookOutcome hooks u j = Inl e"

text \<open>
  The calls of the first \<open>k\<close> hooks of a list started on \<open>u\<close>, each with the
  \<^verbatim>\<open>gotoOptions\<close> that the hooks before it left.
\<close>

definition hookCalls :: "hook list \<Rightarrow> user_state \<Rightarrow> nat \<Rightarrow> call list" where
  "hookCalls hooks u k = map (\<lambda>i. Hook i (optionsOf (afterHooks (take i hooks) u))) [0..<k]"

text \<open>
  What the first pre-navigation hook is called with: the state of the attempt with the
  crawler's \<^verbatim>\<open>gotoOptions\<close>. What the first post-navigation hook is called with: the state
  the navigation function left, with its response in the crawling context.
\<close>

definition hookState :: "crawler \<Rightarrow> world \<Rightarrow> user_state" where
  "hookState crawler w = (crawlingContext w, requests w, page w, crawlerGotoOptions crawler)"

definition withResponse :: "response \<Rightarrow> user_state \<Rightarrow> user_state" where
  "withResponse resp u = (case u of (c, rs, p, g) \<Rightarrow> (c\<lparr>response := resp\<rparr>, rs, p, g))"

text \<open>The calls made from the page handler on: the handler, \<^verbatim>\<open>markGood\<close>, \<^verbatim>\<open>page.close\<close>.\<close>

fun lateCall :: "call \<Rightarrow> bool" where
  "lateCall HandlePageFunction = True"
| "lateCall (MarkGood s) = True"
| "lateCall PageClose = True"
| "lateCall c = False"

section \<open>Calls made by the stages\<close>

lemma calls_called [simp]: "calls (called c w) = calls w @ [c]"
  and page_called [simp]: "page (called c w) = page w"
  and crawlingContext_called [simp]: "crawlingContext (called c w) = crawlingContext w"
  and gotoOptions_called [simp]: "gotoOptions (called c w) = gotoOptions w"
  and requests_called [simp]: "requests (called c w) = requests w"
  by (simp_all add: called_def)

lemma callHook_calls: "calls (snd (callHook i h w)) = calls w @ [Hook i (gotoOptions w)]"
  by (simp add: callHook_def split: prod.splits)

lemma forHooks_late: "filter lateCall (calls (snd (forHooks hs w))) = filter lateCall (calls w)"
proof (induction hs arbitrary: w)
  case Nil
  then show ?case by simp
next
  case (Cons ih hs)
  obtain i h where ih: "ih = (i, h)" by (cases ih)
  obtain r w' where c: "callHook i h w = (r, w')" by (cases "callHook i h w")
  have "filter lateCall (calls w') = filter lateCall (calls w)"
    using callHook_calls [of i h w] c by simp
  then show ?case using Cons.IH [of w'] c ih by (cases r) simp_all
qed

lemma executeHooks_late:
  "filter lateCall (calls (snd (executeHooks hs w))) = filter lateCall (calls w)"
  by (simp add: executeHooks_def forHooks_late)

lemma navigationHandler_late:
  "filter lateCall (calls (snd (navigationHandler crawler w))) = filter lateCall (calls w)"
  by (simp add: navigationHandler_def split: option.splits prod.splits)

lemma handleNavigation_late:
  "filter lateCall (calls (snd (handleNavigation crawler w))) = filter lateCall (calls w)"
proof -
  let ?w0 = "w\<lparr>gotoOptions := crawlerGotoOptions crawler\<rparr>"
  obtain r1 w1 where h1: "executeHooks (preNavigationHooks crawler) ?w0 = (r1, w1)"
    by (cases "executeHooks (preNavigationHooks crawler) ?w0")
  have l1: "filter lateCall (calls w1) = filter lateCall (calls w)"
    using executeHooks_late [of "preNavigationHooks crawler" ?w0] h1 by simp
  obtain r2 w2 where h2: "navigationHandler crawler w1 = (r2, w2)"
    by (cases "navigationHandler crawler w1")
  have l2: "filter lateCall (calls w2) = filter lateCall (calls w)"
    using navigationHandler_late [of crawler w1] h2 l1 by simp
  show ?thesis
  proof (cases r1)
    case (Inl e)
    then show ?thesis using h1 l1 by (simp add: handleNavigation_def)
  next
    case (Inr u)
    show ?thesis
    proof (cases r2)
      case (Inl e)
      then show ?thesis using h1 h2 Inr l2 by (simp add: handleNavigation_def)
    next
      case (Inr resp)
      let ?w3 = "w2\<lparr>crawlingContext := (crawlingContext w2)\<lparr>response := resp\<rparr>\<rparr>"
      have "filter lateCall (calls (snd (executeHooks (postNavigationHooks crawler) ?w3)))
              = filter lateCall (calls w)"
        using executeHooks_late [of "postNavigationHooks crawler" ?w3] l2 by simp
      then show ?thesis using h1 h2 \<open>r1 = Inr u\<close> Inr by (simp add: handleNavigation_def)
    qed
  qed
qed

lemma responseHandler_late:
  "filter lateCall (calls (snd (responseHandler crawler env w))) = filter lateCall (calls w)"
  by (simp add: responseHandler_def throwOnBlockedRequest_def
      split: response.splits option.splits prod.splits sum.splits)

lemma restoreCookies_late:
  "filter lateCall (calls (snd (restoreCookies crawler env w))) = filter lateCall (calls w)"
  by (simp add: restoreCookies_def Let_def split: option.splits sum.splits)

lemma saveCookies_late:
  "filter lateCall (calls (snd (saveCookies crawler env sess req w))) = filter lateCall (calls w)"
  by (simp add: saveCookies_def Let_def split: option.splits sum.splits)

lemma runHandlePageFunction_calls:
  "calls (snd (runHandlePageFunction crawler w)) = calls w @ [HandlePageFunction]"
  by (simp add: runHandlePageFunction_def split: prod.splits)

lemma markGood_calls:
  "markGood sess w = (Inr (), case sess of None \<Rightarrow> w | Some s \<Rightarrow> called (MarkGood s) w)"
  by (simp add: markGood_def split: option.splits)

lemma finallyBlock_late:
  "filter lateCall (calls (finallyBlock env w)) = filter lateCall (calls w) @ [PageClose]"
  by (simp add: finallyBlock_def split: sum.splits)

lemma acquired_late: "filter lateCall (calls (acquired env ctx p)) = []"
  by (simp add: acquired_def)

lemma tryBlock_cases [case_names navigation classification capture handler good]:
  obtains
    e w1 where "handleNavigation crawler w = (Inl e, w1)"
      and "tryBlock crawler env sess req w = (Inl e, w1)"
  | w1 e w2 where "handleNavigation crawler w = (Inr (), w1)"
      and "responseHandler crawler env w1 = (Inl e, w2)"
      and "tryBlock crawler env sess req w = (Inl e, w2)"
  | w1 w2 e w3 where "handleNavigation crawler w = (Inr (), w1)"
      and "responseHandler crawler env w1 = (Inr (), w2)"
      and "saveCookies crawler env sess req w2 = (Inl e, w3)"
      and "tryBlock crawler env sess req w = (Inl e, w3)"
  | w1 w2 w3 e w4 where "handleNavigation crawler w = (Inr (), w1)"
      and "responseHandler crawler env w1 = (Inr (), w2)"
      and "saveCookies crawler env sess req w2 = (Inr (), w3)"
      and "runHandlePageFunction crawler w3 = (Inl e, w4)"
      and "tryBlock crawler env sess req w = (Inl e, w4)"
  | w1 w2 w3 w4 where "handleNavigation crawler w = (Inr (), w1)"
      and "responseHandler crawler env w1 = (Inr (), w2)"
      and "saveCookies crawler env sess req w2 = (Inr (), w3)"
      and "runHandlePageFunction crawler w3 = (Inr (), w4)"
      and "tryBlock crawler env sess req w = markGood sess w4"
  unfolding tryBlock_def
  by (cases "handleNavigation crawler w"; cases "fst (handleNavigation crawler w)";
      cases "responseHandler crawler env (snd (handleNavigation crawler w))";
      cases "fst (responseHandler crawler env (snd (handleNavigation crawler w)))";
      cases "saveCookies crawler env sess req (snd (responseHandler crawler env (snd (handleNavigation crawler w))))";
      cases "fst (saveCookies crawler env sess req (snd (responseHandler crawler env (snd (handleNavigation crawler w)))))";
      cases "runHandlePageFunction crawler (snd (saveCookies crawler env sess req (snd (responseHandler crawler env (snd (handleNavigation crawler w))))))";
      cases "fst (runHandlePageFunction crawler (snd (saveCookies crawler env sess req (snd (responseHandler crawler env (snd (handleNavigation crawler w)))))))";
      simp)

lemma late_mem: "lateCall c \<Longrightarrow> c \<in> set xs \<longleftrightarrow> c \<in> set (filter lateCall xs)"
  by simp

lemma late_count: "lateCall c \<Longrightarrow> count_list (filter lateCall xs) c = count_list xs c"
  by (induction xs) auto

lemma restoreCookies_lateE:
  "restoreCookies crawler env w = (r, w') \<Longrightarrow> filter lateCall (calls w') = filter lateCall (calls w)"
  using restoreCookies_late [of crawler env w] by simp

lemma handleNavigation_lateE:
  "handleNavigation crawler w = (r, w') \<Longrightarrow> filter lateCall (calls w') = filter lateCall (calls w)"
  using handleNavigation_late [of crawler w] by simp

lemma responseHandler_lateE:
  "responseHandler crawler env w = (r, w') \<Longrightarrow> filter lateCall (calls w') = filter lateCall (calls w)"
  using responseHandler_late [of crawler env w] by simp

lemma saveCookies_lateE:
  "saveCookies crawler env sess req w = (r, w') \<Longrightarrow> filter lateCall (calls w') = filter lateCall (calls w)"
  using saveCookies_late [of crawler env sess req w] by simp

lemma saveCookies_ok:
  assumes "persistCookiesPerSession crawler" and "saveCookies crawler env sess req w = (Inr (), w')"
  shows "\<exists>s cs. sess = Some s \<and> getCookies env (page w) = Inr cs
           \<and> calls w' = calls w @ [GetCookies,
                 SetPuppeteerCookies s cs (loadedUrl (requests w req))]
           \<and> setPuppeteerCookies env s cs (loadedUrl (requests w req)) = Inr ()
           \<and> userState w' = userState w"
  using assms
  by (auto simp: saveCookies_def Let_def userState_def split: sum.splits option.splits)

lemma finallyBlock_calls:
  "\<exists>logged. calls (finallyBlock env w) = calls w @ PageClose # logged \<and> GetCookies \<notin> set logged"
  by (simp add: finallyBlock_def split: sum.splits)


lemma finallyBlock_log:
  "\<exists>logged. calls (finallyBlock env w) = calls w @ PageClose # logged
      \<and> set logged \<subseteq> {LogDebug ''Error while closing page''}"
  by (simp add: finallyBlock_def split: sum.splits)

lemma responseHandler_ok:
  assumes "responseHandler crawler env w = (Inr u, w')"
  shows "crawlingContext w' = crawlingContext w \<and> page w' = page w
         \<and> gotoOptions w' = gotoOptions w
         \<and> requests w' = (requests w)
              (request (crawlingContext w) :=
                 (currentRequest w)\<lparr>loadedUrl := Some (liveUrl (page w))\<rparr>)"
proof -
  let ?set = "\<lambda>v. v\<lparr>requests := (requests v)
      (request (crawlingContext v) := (currentRequest v)\<lparr>loadedUrl := Some (liveUrl (page v))\<rparr>)\<rparr>"
  have "w' = ?set w \<or> w' = ?set (called (LogDebug ''Got a malformed Browser response.'') w)"
    using assms
    by (auto simp: responseHandler_def throwOnBlockedRequest_def
        split: if_splits response.splits option.splits)
  then show ?thesis by (auto simp: currentRequest_def)
qed

lemma acquired_request: "request (crawlingContext (acquired env ctx p)) = request ctx"
  and acquired_session: "session (crawlingContext (acquired env ctx p)) = launchSession env"
  by (simp_all add: acquired_def enhanceCrawlingContextWithPageInfo_def)
section \<open>The example attempt, stage by stage\<close>

lemmas stage_defs = handleRequestFunction_def acquired_def restoreCookies_def tryBlock_def
  handleNavigation_def executeHooks_def navigationHandler_def responseHandler_def
  throwOnBlockedRequest_def saveCookies_def runHandlePageFunction_def addTimeoutToPromise_def
  timeoutMessage_def markGood_def finallyBlock_def called_def userState_def callHook_def
  enhanceCrawlingContextWithPageInfo_def currentRequest_def

lemmas example_defs = exampleCrawler_def exampleEnv_def exampleContext_def examplePage_def
  redirectingGoto_def settlesAs_def setHeader_def requireHeader_def failingHook_def
  replaceRequest_def

lemma exampleRequests_apply [simp]:
  "exampleRequests r = \<lparr>url = ''http://example.com/'', loadedUrl = None\<rparr>"
  by (simp add: exampleRequests_def)

lemma one_second:
  "scaled (Finite 1) 1000 = Finite 1000"
  "scaled (Finite 1000) (1 / 1000) = Finite 1"
  "scaled (Finite 1) 10 = Finite 10"
  "numberToString (Finite 1) = ''1''"
  by code_simp+

lemmas world_defs = exampleRestored_def exampleNavigated_def exampleClassified_def
  exampleCaptured_def

lemma example_restore:
  "restoreCookies (exampleCrawler outcome status True hooks) (exampleEnv True)
     (acquired (exampleEnv True) exampleContext examplePage) = (Inr (), exampleRestored)"
  by (simp add: stage_defs example_defs world_defs)

lemma example_navigation:
  "handleNavigation (exampleCrawler outcome status True []) exampleRestored
     = (Inr (), exampleNavigated status)"
  by (simp add: stage_defs example_defs world_defs)

lemma example_classification:
  "status \<notin> set [401, 403, 429] \<Longrightarrow>
   responseHandler (exampleCrawler outcome status True []) (exampleEnv True)
     (exampleNavigated status) = (Inr (), exampleClassified status)"
  by (simp add: stage_defs example_defs world_defs)

lemma example_capture:
  "saveCookies (exampleCrawler outcome status True hooks) (exampleEnv True) (Some ''session-1'') 0
     (exampleClassified status) = (Inr (), exampleCaptured status)"
  by (simp add: stage_defs example_defs world_defs)

lemma example_constructor:
  "constructor 10 (exampleOptions outcome status pool hooks)
     = (Inr (exampleCrawler outcome status pool hooks),
        BasicCrawlerSuper (Finite 10) # (if pool then [NewSessionPool] else [])
          @ [NewBrowserPool])"
  by (simp add: constructor_def exampleOptions_def exampleCrawler_def owShape_def orDefault_def
      one_second)

lemma example_timeout_run:
  "handleRequestFunction (exampleCrawler Pending 200 True [])
       (exampleEnv True) exampleContext =
     (Inl (TimeoutError ''handlePageFunction timed out after 1 seconds.''),
      Some ((exampleCaptured 200)
              \<lparr>calls := calls (exampleCaptured 200) @ [HandlePageFunction, PageClose]\<rparr>))"
  by (simp add: stage_defs example_defs world_defs one_second)
section \<open>Page cleanup\<close>

text \<open>
  Claim C1 says that the page is closed exactly once whichever stage of an attempt raises,
  cookie restore included. The code restores the cookies before it enters the
  \<^verbatim>\<open>try\<close> whose \<^verbatim>\<open>finally\<close> closes the page: in the attempt below cookie persistence is
  on and \<^verbatim>\<open>browserController.setCookies\<close> raises; the attempt fails with that error, and
  the calls it made are the page acquisition and the two cookie calls, with no
  \<^verbatim>\<open>page.close\<close> among them.
\<close>

theorem page_left_open_when_cookie_restore_raises:
  "handleRequestFunction (exampleCrawler Resolved 200 True []) brokenCookiesEnv exampleContext =
     (Inl (Thrown ''setCookies failed''),
      Some \<lparr>crawlingContext = exampleContext\<lparr>session := Some ''session-1''\<rparr>,
            requests = exampleRequests, page = examplePage, gotoOptions = [],
            calls = [NewPage ''attempt-1'',
                     GetPuppeteerCookies ''session-1'' ''http://example.com/'',
                     SetCookies []]\<rparr>)"
  by (simp add: handleRequestFunction_def acquired_def restoreCookies_def exampleCrawler_def
      brokenCookiesEnv_def exampleEnv_def exampleContext_def
      enhanceCrawlingContextWithPageInfo_def called_def currentRequest_def)

text \<open>
  Once cookie restore has returned, every attempt closes the page exactly once, whatever
  the later stages do.
\<close>

lemma page_closed_once_from_try:
  assumes "newPage env (ctxId ctx) = Inr p"
    and "restoreCookies crawler env (acquired env ctx p) = (Inr (), w1)"
  shows "\<exists>r w. handleRequestFunction crawler env ctx = (r, Some w)
           \<and> count_list (calls w) PageClose = 1"
proof -
  let ?sess = "session (crawlingContext (acquired env ctx p))"
  let ?req = "request (crawlingContext (acquired env ctx p))"
  obtain r w2 where t: "tryBlock crawler env ?sess ?req w1 = (r, w2)"
    by (cases "tryBlock crawler env ?sess ?req w1")
  have l1: "filter lateCall (calls w1) = []"
    using restoreCookies_lateE [OF assms(2)] acquired_late by simp
  have run: "handleRequestFunction crawler env ctx = (r, Some (finallyBlock env w2))"
    using assms t by (simp add: handleRequestFunction_def Let_def)
  have "count_list (filter lateCall (calls w2)) PageClose = 0"
  proof (cases rule: tryBlock_cases [of crawler w1 env ?sess ?req])
    case (navigation e v1)
    then show ?thesis using t l1 handleNavigation_lateE [OF navigation(1)] by simp
  next
    case (classification v1 e v2)
    then show ?thesis
      using t l1 handleNavigation_lateE [OF classification(1)]
        responseHandler_lateE [OF classification(2)] by simp
  next
    case (capture v1 v2 e v3)
    then show ?thesis
      using t l1 handleNavigation_lateE [OF capture(1)]
        responseHandler_lateE [OF capture(2)]
        saveCookies_lateE [OF capture(3)] by simp
  next
    case (handler v1 v2 v3 e v4)
    then show ?thesis
      using t l1 handleNavigation_lateE [OF handler(1)]
        responseHandler_lateE [OF handler(2)]
        saveCookies_lateE [OF handler(3)]
        runHandlePageFunction_calls [of crawler v3] by simp
  next
    case (good v1 v2 v3 v4)
    then show ?thesis
      using t l1 handleNavigation_lateE [OF good(1)]
        responseHandler_lateE [OF good(2)]
        saveCookies_lateE [OF good(3)]
        runHandlePageFunction_calls [of crawler v3]
      by (auto simp: markGood_calls split: option.splits)
  qed
  then have "count_list (calls (finallyBlock env w2)) PageClose = 1"
    using late_count [of PageClose "calls (finallyBlock env w2)"] finallyBlock_late [of env w2]
    by simp
  then show ?thesis using run by blast
qed

section \<open>Cookie capture\<close>

text \<open>
  Claim C2 says that with cookie persistence the page cookies are captured and stored only
  after the page handler has completed successfully, and not at all when the handler fails
  or times out. The code captures them before it calls the handler: in the attempt below
  the handler rejects, the attempt fails with the handler's error, and the calls show
  \<^verbatim>\<open>getCookies\<close> and \<^verbatim>\<open>setPuppeteerCookies\<close> made before the handler was called.
\<close>

theorem handler_failure_keeps_captured_cookies:
  "handleRequestFunction (exampleCrawler (Rejected (Thrown ''boom'')) 200 True [])
       (exampleEnv True) exampleContext =
     (Inl (Thrown ''boom''),
      Some \<lparr>crawlingContext =
              \<lparr>ctxId = ''attempt-1'', request = 0,
               session = Some ''session-1'', proxyInfo = None,
               response = StatusResponse 200\<rparr>,
            requests = exampleRequests
              (0 := \<lparr>url = ''http://example.com/'',
                      loadedUrl = Some ''http://example.com/landing''\<rparr>),
            page = \<lparr>liveUrl = ''http://example.com/landing'', cookies = [(''sid'', ''42'')]\<rparr>,
            gotoOptions = [],
            calls = [NewPage ''attempt-1'',
                     GetPuppeteerCookies ''session-1'' ''http://example.com/'',
                     SetCookies [], GotoFunction [], GetCookies,
                     SetPuppeteerCookies ''session-1'' [(''sid'', ''42'')]
                       (Some ''http://example.com/landing''),
                     HandlePageFunction, PageClose]\<rparr>)"
  by (simp add: stage_defs example_defs)

text \<open>
  The key of the stored cookies is read from the \<^verbatim>\<open>request\<close> that line 350 bound. When a
  hook makes the crawling context refer to another request object, response handling sets
  \<^verbatim>\<open>loadedUrl\<close> on that other object, and the cookies are stored under the unset
  \<^verbatim>\<open>loadedUrl\<close> of the first one.
\<close>

lemma replaced_request_stores_under_unset_loadedUrl:
  "handleRequestFunction (exampleCrawler Resolved 200 True [replaceRequest])
       (exampleEnv True) exampleContext =
     (Inr (),
      Some \<lparr>crawlingContext =
              \<lparr>ctxId = ''attempt-1'', request = 1,
               session = Some ''session-1'', proxyInfo = None,
               response = StatusResponse 200\<rparr>,
            requests = exampleRequests
              (1 := \<lparr>url = ''http://example.com/'',
                      loadedUrl = Some ''http://example.com/landing''\<rparr>),
            page = \<lparr>liveUrl = ''http://example.com/landing'', cookies = [(''sid'', ''42'')]\<rparr>,
            gotoOptions = [],
            calls = [NewPage ''attempt-1'',
                     GetPuppeteerCookies ''session-1'' ''http://example.com/'',
                     SetCookies [], Hook 0 [], GotoFunction [], GetCookies,
                     SetPuppeteerCookies ''session-1'' [(''sid'', ''42'')] None,
                     HandlePageFunction, MarkGood ''session-1'', PageClose]\<rparr>)"
  by (simp add: stage_defs example_defs)

text \<open>
  Claim C2 as amended: with cookie persistence, whenever an attempt calls the page handler,
  cookie restore, navigation and response handling have returned normally, and the two calls
  made right after response handling and right before the handler are the capture of the
  page cookies, as the page has them after response handling, and their storing in the launch
  session, which succeeded. The key is the \<^verbatim>\<open>loadedUrl\<close> that the request the attempt began
  with has after response handling; when the context still refers to that request after
  navigation, it is the live url of the page. The handler was not called before, and neither
  a capture nor a storing follows it, whatever the handler's outcome is.
\<close>

theorem cookies_captured_before_handler:
  assumes "persistCookiesPerSession crawler"
    and "handleRequestFunction crawler env ctx = (r, Some w)"
    and "HandlePageFunction \<in> set (calls w)"
  shows "\<exists>p (w1::world) (w2::world) (w3::world) s cs post.
           newPage env (ctxId ctx) = Inr p
         \<and> restoreCookies crawler env (acquired env ctx p) = (Inr (), w1)
         \<and> handleNavigation crawler w1 = (Inr (), w2)
         \<and> responseHandler crawler env w2 = (Inr (), w3)
         \<and> getCookies env (page w3) = Inr cs \<and> launchSession env = Some s
         \<and> calls w = calls w3 @ [GetCookies,
               SetPuppeteerCookies s cs (loadedUrl (requests w3 (request ctx))),
               HandlePageFunction] @ post
         \<and> setPuppeteerCookies env s cs (loadedUrl (requests w3 (request ctx))) = Inr ()
         \<and> HandlePageFunction \<notin> set (calls w3)
         \<and> GetCookies \<notin> set post
         \<and> (\<forall>s' cs' key. SetPuppeteerCookies s' cs' key \<notin> set post)
         \<and> (request (crawlingContext w2) = request ctx
              \<longrightarrow> loadedUrl (requests w3 (request ctx)) = Some (liveUrl (page w3)))"
proof -
  obtain p where p: "newPage env (ctxId ctx) = Inr p"
    using assms(2) by (cases "newPage env (ctxId ctx)") (simp_all add: handleRequestFunction_def)
  let ?sess = "session (crawlingContext (acquired env ctx p))"
  let ?req = "request (crawlingContext (acquired env ctx p))"
  have sess: "?sess = launchSession env" and req: "?req = request ctx"
    by (simp_all add: acquired_request acquired_session)
  obtain r0 w1 where rc: "restoreCookies crawler env (acquired env ctx p) = (r0, w1)"
    by (cases "restoreCookies crawler env (acquired env ctx p)")
  have l1: "filter lateCall (calls w1) = []"
    using restoreCookies_lateE [OF rc] acquired_late by simp
  have inh: "HandlePageFunction \<in> set (filter lateCall (calls w))"
    using assms(3) by simp
  show ?thesis
  proof (cases r0)
    case (Inl e)
    then have "w = w1" using assms(2) p rc by (simp add: handleRequestFunction_def Let_def)
    then show ?thesis using inh l1 by simp
  next
    case (Inr u)
    then have rc': "restoreCookies crawler env (acquired env ctx p) = (Inr (), w1)"
      using rc by simp
    obtain r2 w2 where t: "tryBlock crawler env ?sess ?req w1 = (r2, w2)"
      by (cases "tryBlock crawler env ?sess ?req w1")
    have w: "w = finallyBlock env w2"
      using assms(2) p rc Inr t by (simp add: handleRequestFunction_def Let_def)
    obtain logged where fin: "calls w = calls w2 @ PageClose # logged"
      "set logged \<subseteq> {LogDebug ''Error while closing page''}"
      using finallyBlock_log [of env w2] w by blast
    have inh2: "HandlePageFunction \<in> set (filter lateCall (calls w2))"
      using inh w finallyBlock_late [of env w2] by simp
    have captured: ?thesis
      if nav: "handleNavigation crawler w1 = (Inr (), v1)"
        and cls: "responseHandler crawler env v1 = (Inr (), v2)"
        and cap: "saveCookies crawler env ?sess ?req v2 = (Inr (), v3)"
        and run: "calls w2 = calls v3 @ HandlePageFunction # marked"
        and marked: "set marked \<subseteq> range MarkGood"
      for v1 v2 v3 :: world and marked
    proof -
      let ?key = "loadedUrl (requests v2 (request ctx))"
      have l: "filter lateCall (calls v2) = []"
        using l1 handleNavigation_lateE [OF nav] responseHandler_lateE [OF cls] by simp
      obtain s cs where sc: "?sess = Some s" "getCookies env (page v2) = Inr cs"
        "calls v3 = calls v2 @ [GetCookies, SetPuppeteerCookies s cs ?key]"
        "setPuppeteerCookies env s cs ?key = Inr ()"
        using saveCookies_ok [OF assms(1) cap] req by auto
      let ?post = "marked @ PageClose # logged"
      have c: "calls w = calls v2 @ [GetCookies, SetPuppeteerCookies s cs ?key,
                 HandlePageFunction] @ ?post"
        using fin(1) run sc(3) by simp
      have h: "HandlePageFunction \<notin> set (calls v2)"
        using l late_mem [of HandlePageFunction "calls v2"] by simp
      have g: "GetCookies \<notin> set ?post" using fin(2) marked by auto
      have sp: "\<forall>s' cs' key. SetPuppeteerCookies s' cs' key \<notin> set ?post"
        using fin(2) marked by auto
      have k: "request (crawlingContext v1) = request ctx \<longrightarrow> ?key = Some (liveUrl (page v2))"
        using responseHandler_ok [OF cls] by simp
      show ?thesis
        using p rc' nav cls sc(2) sc(1) sess c sc(4) h g sp k by force
    qed
    show ?thesis
    proof (cases rule: tryBlock_cases [of crawler w1 env ?sess ?req])
      case (navigation e v1)
      then show ?thesis using t l1 inh2 handleNavigation_lateE [OF navigation(1)] by simp
    next
      case (classification v1 e v2)
      then show ?thesis
        using t l1 inh2 handleNavigation_lateE [OF classification(1)]
          responseHandler_lateE [OF classification(2)] by simp
    next
      case (capture v1 v2 e v3)
      then show ?thesis
        using t l1 inh2 handleNavigation_lateE [OF capture(1)]
          responseHandler_lateE [OF capture(2)] saveCookies_lateE [OF capture(3)] by simp
    next
      case (handler v1 v2 v3 e v4)
      have "calls v4 = calls v3 @ [HandlePageFunction]"
        using runHandlePageFunction_calls [of crawler v3] handler(4) by simp
      moreover have "w2 = v4" using t handler(5) by simp
      ultimately have "calls w2 = calls v3 @ HandlePageFunction # []" by simp
      then show ?thesis using captured [OF handler(1,2,3)] by simp
    next
      case (good v1 v2 v3 v4)
      have "calls v4 = calls v3 @ [HandlePageFunction]"
        using runHandlePageFunction_calls [of crawler v3] good(4) by simp
      moreover have "\<exists>marked. calls w2 = calls v4 @ marked \<and> set marked \<subseteq> range MarkGood"
        using t good(5) by (cases ?sess) (auto simp: markGood_calls)
      ultimately obtain marked where "calls w2 = calls v3 @ HandlePageFunction # marked"
        "set marked \<subseteq> range MarkGood" by auto
      then show ?thesis using captured [OF good(1,2,3)] by simp
    qed
  qed
qed

theorem cookies_captured_before_handler_witness:
  "persistCookiesPerSession (exampleCrawler Pending 200 True [])
   \<and> handleRequestFunction (exampleCrawler Pending 200 True []) (exampleEnv True) exampleContext
       = (Inl (TimeoutError ''handlePageFunction timed out after 1 seconds.''),
          Some ((exampleCaptured 200)
                  \<lparr>calls := calls (exampleCaptured 200) @ [HandlePageFunction, PageClose]\<rparr>))
   \<and> responseHandler (exampleCrawler Pending 200 True []) (exampleEnv True) (exampleNavigated 200)
       = (Inr (), exampleClassified 200)
   \<and> calls (exampleCaptured 200) @ [HandlePageFunction, PageClose]
       = calls (exampleClassified 200)
           @ [GetCookies,
              SetPuppeteerCookies ''session-1'' [(''sid'', ''42'')]
                (Some ''http://example.com/landing''),
              HandlePageFunction] @ [PageClose]
   \<and> request (crawlingContext (exampleNavigated 200)) = request exampleContext
   \<and> loadedUrl (requests (exampleClassified 200) (request exampleContext))
       = Some (liveUrl (page (exampleClassified 200)))"
proof -
  let ?crawler = "exampleCrawler Pending 200 True []"
  have persist: "persistCookiesPerSession ?crawler"
    by (simp add: exampleCrawler_def)
  obtain p and w1 w2 w3 :: world and s cs post where
    stages: "restoreCookies ?crawler (exampleEnv True) (acquired (exampleEnv True) exampleContext p)
               = (Inr (), w1)"
      "newPage (exampleEnv True) (ctxId exampleContext) = Inr p"
      "handleNavigation ?crawler w1 = (Inr (), w2)"
      "responseHandler ?crawler (exampleEnv True) w2 = (Inr (), w3)"
    and key: "request (crawlingContext w2) = request exampleContext
              \<longrightarrow> loadedUrl (requests w3 (request exampleContext)) = Some (liveUrl (page w3))"
    using cookies_captured_before_handler [OF persist example_timeout_run] by auto
  have "p = examplePage" using stages(2) by (simp add: exampleEnv_def)
  then have "w1 = exampleRestored" using stages(1) example_restore [of Pending 200 "[]"] by simp
  then have w2: "w2 = exampleNavigated 200"
    using stages(3) example_navigation [of Pending 200] by simp
  then have w3: "w3 = exampleClassified 200"
    using stages(4) example_classification [of 200 Pending] by simp
  have same: "request (crawlingContext (exampleNavigated 200)) = request exampleContext"
    by (simp add: world_defs)
  have "loadedUrl (requests (exampleClassified 200) (request exampleContext))
       = Some (liveUrl (page (exampleClassified 200)))"
    using key w2 w3 same by simp
  moreover have "responseHandler ?crawler (exampleEnv True) (exampleNavigated 200)
       = (Inr (), exampleClassified 200)"
    using example_classification [of 200 Pending] by simp
  moreover have "calls (exampleCaptured 200) @ [HandlePageFunction, PageClose]
       = calls (exampleClassified 200)
           @ [GetCookies,
              SetPuppeteerCookies ''session-1'' [(''sid'', ''42'')]
                (Some ''http://example.com/landing''),
              HandlePageFunction] @ [PageClose]"
    by (simp add: world_defs)
  ultimately show ?thesis using persist example_timeout_run same by simp
qed
section \<open>Blocked responses\<close>

text \<open>
  Claim C3 says that every attempt whose response has a status accessor and a blocked status
  retires the session, fails with a blocked-response error and never calls the handler. A
  crawler without a session pool does not look at the status: below the response has status
  403, which is blocked, and the attempt calls the handler and succeeds.
\<close>

theorem blocked_status_without_session_pool_reaches_handler:
  "403 \<in> set (blockedStatusCodes (exampleEnv False))
   \<and> handleRequestFunction (exampleCrawler Resolved 403 False []) (exampleEnv False)
         exampleContext =
       (Inr (),
        Some \<lparr>crawlingContext =
                \<lparr>ctxId = ''attempt-1'',
                 request = 0, session = None, proxyInfo = None,
                 response = StatusResponse 403\<rparr>,
              requests = exampleRequests
                (0 := \<lparr>url = ''http://example.com/'',
                        loadedUrl = Some ''http://example.com/landing''\<rparr>),
              page = \<lparr>liveUrl = ''http://example.com/landing'', cookies = [(''sid'', ''42'')]\<rparr>,
              gotoOptions = [],
              calls = [NewPage ''attempt-1'', GotoFunction [], HandlePageFunction,
                       PageClose]\<rparr>)"
  by (simp add: stage_defs example_defs)

text \<open>
  Claim C3 as amended: for a crawler with a session pool, when response handling is reached
  (page acquired, cookies restored, navigation and its hooks returned) with a context whose
  response has a status in the blocked set and whose session is \<open>s\<close>, the attempt retires
  \<open>s\<close>, fails with the blocked-response error for that status, never calls the page
  handler, and closes the page once.
\<close>

theorem blocked_status_retires_session_and_skips_handler:
  assumes "sessionPool crawler \<noteq> None"
    and "newPage env (ctxId ctx) = Inr p"
    and "restoreCookies crawler env (acquired env ctx p) = (Inr (), w1)"
    and "handleNavigation crawler w1 = (Inr (), w2)"
    and "response (crawlingContext w2) = StatusResponse st"
    and "st \<in> set (blockedStatusCodes env)"
    and "session (crawlingContext w2) = Some s"
  shows "\<exists>w. handleRequestFunction crawler env ctx = (Inl (BlockedResponseError st), Some w)
           \<and> SessionRetire s \<in> set (calls w)
           \<and> HandlePageFunction \<notin> set (calls w)
           \<and> count_list (calls w) PageClose = 1"
proof -
  let ?sess = "session (crawlingContext (acquired env ctx p))"
  let ?req = "request (crawlingContext (acquired env ctx p))"
  let ?w3 = "called (SessionRetire s) w2"
  have rh: "responseHandler crawler env w2 = (Inl (BlockedResponseError st), ?w3)"
    using assms(1,5,6,7) by (simp add: responseHandler_def throwOnBlockedRequest_def)
  have t: "tryBlock crawler env ?sess ?req w1 = (Inl (BlockedResponseError st), ?w3)"
    using assms(4) rh by (simp add: tryBlock_def)
  have run: "handleRequestFunction crawler env ctx
               = (Inl (BlockedResponseError st), Some (finallyBlock env ?w3))"
    using assms(2,3) t by (simp add: handleRequestFunction_def Let_def)
  have l2: "filter lateCall (calls w2) = []"
    using restoreCookies_lateE [OF assms(3)]
      handleNavigation_lateE [OF assms(4)] acquired_late by simp
  have late: "filter lateCall (calls (finallyBlock env ?w3)) = [PageClose]"
    using finallyBlock_late [of env ?w3] l2 by simp
  have "SessionRetire s \<in> set (calls (finallyBlock env ?w3))"
    by (simp add: finallyBlock_def split: sum.splits)
  moreover have "HandlePageFunction \<notin> set (calls (finallyBlock env ?w3))"
    using late late_mem [of HandlePageFunction "calls (finallyBlock env ?w3)"] by simp
  moreover have "count_list (calls (finallyBlock env ?w3)) PageClose = 1"
    using late late_count [of PageClose "calls (finallyBlock env ?w3)"] by simp
  ultimately show ?thesis using run by blast
qed

theorem blocked_status_retires_session_and_skips_handler_witness:
  "\<exists>w. handleRequestFunction (exampleCrawler Resolved 403 True []) (exampleEnv True)
          exampleContext = (Inl (BlockedResponseError 403), Some w)
       \<and> SessionRetire ''session-1'' \<in> set (calls w)
       \<and> HandlePageFunction \<notin> set (calls w)
       \<and> count_list (calls w) PageClose = 1"
proof -
  have "sessionPool (exampleCrawler Resolved 403 True []) \<noteq> None"
    by (simp add: exampleCrawler_def)
  moreover have "newPage (exampleEnv True) (ctxId exampleContext) = Inr examplePage"
    by (simp add: exampleEnv_def)
  moreover have "response (crawlingContext (exampleNavigated 403)) = StatusResponse 403"
    and "403 \<in> set (blockedStatusCodes (exampleEnv True))"
    and "session (crawlingContext (exampleNavigated 403)) = Some ''session-1''"
    by (simp_all add: exampleNavigated_def exampleEnv_def)
  ultimately show ?thesis
    using blocked_status_retires_session_and_skips_handler
      [of "exampleCrawler Resolved 403 True []" "exampleEnv True" exampleContext examplePage
        exampleRestored "exampleNavigated 403" 403 "''session-1''"]
      example_restore example_navigation
    by simp
qed

section \<open>Handler timeout\<close>

text \<open>
  Whole numbers below \<open>2^53\<close> are doubles, so a whole number of seconds whose milliseconds
  stay below \<open>2^53\<close> comes back unchanged from multiplying by 1000 and dividing by 1000.
\<close>

lemma roundHalfEven_of_int: "roundHalfEven (of_int z) = z"
  by (simp add: roundHalfEven_def)

lemma ulpFrom_whole:
  assumes "x / (1 / 2 ^ j) < 2 ^ 53"
  shows "\<exists>k. ulpFrom fuel x (1 / 2 ^ j) (- int j) = (1 / 2 ^ k, - int k)"
  using assms
proof (induction fuel arbitrary: j)
  case 0
  then show ?case by auto
next
  case (Suc fuel)
  show ?case
  proof (cases "x / (1 / 2 ^ j) < 2 ^ 52 \<and> - 1074 < - int j")
    case True
    then have "x / (1 / 2 ^ Suc j) < 2 ^ 53" by simp
    from Suc.IH [OF this] obtain k where
      k: "ulpFrom fuel x (1 / 2 ^ Suc j) (- int (Suc j)) = (1 / 2 ^ k, - int k)" by blast
    have e1: "1 / 2 ^ j / 2 = (1 / 2 ^ Suc j :: rat)" by simp
    have e2: "- int j - 1 = - int (Suc j)" by simp
    have "ulpFrom (Suc fuel) x (1 / 2 ^ j) (- int j)
            = ulpFrom fuel x (1 / 2 ^ j / 2) (- int j - 1)"
      using True Suc.prems by simp
    also have "\<dots> = ulpFrom fuel x (1 / 2 ^ Suc j) (- int (Suc j))"
      by (simp only: e1 e2)
    also note k
    finally show ?thesis by (rule exI)
  next
    case False
    then show ?thesis using Suc.prems by auto
  qed
qed

lemma toNumber_whole:
  assumes "n < 2 ^ 53"
  shows "toNumber (of_nat n) = Finite (of_nat n)"
proof -
  have "(of_nat n :: rat) < 2 ^ 53"
    using assms by (metis of_nat_less_iff of_nat_numeral of_nat_power)
  then have "(of_nat n :: rat) / (1 / 2 ^ 0) < 2 ^ 53" by simp
  from ulpFrom_whole [OF this, of 2200] obtain k where
    k: "ulpFrom 2200 (of_nat n) 1 0 = (1 / 2 ^ k, - int k)" by auto
  have "(of_nat n :: rat) / (1 / 2 ^ k) = of_int (int n * 2 ^ k)" by simp
  then have m: "roundHalfEven (of_nat n / (1 / 2 ^ k)) = int n * 2 ^ k"
    using roundHalfEven_of_int [of "int n * 2 ^ k"] by simp
  show ?thesis
    using k m by (simp add: toNumber_def Let_def)
qed

lemma scaled_exact:
  assumes "toNumber r = Finite r" and "toNumber (r * 1000) = Finite (r * 1000)"
  shows "scaled (scaled (Finite r) 1000) (1 / 1000) = Finite r"
  using assms by (simp add: scaled_def)

lemma scaled_whole:
  assumes "n * 1000 < 2 ^ 53"
  shows "scaled (scaled (Finite (of_nat n)) 1000) (1 / 1000) = Finite (of_nat n)"
proof -
  have "n < 2 ^ 53" using assms by simp
  then have a: "toNumber (of_nat n) = Finite (of_nat n)" by (rule toNumber_whole)
  have "toNumber (of_nat (n * 1000)) = Finite (of_nat (n * 1000))"
    using assms by (rule toNumber_whole)
  then have "toNumber (of_nat n * 1000) = Finite (of_nat n * 1000)" by simp
  then show ?thesis using a by (rule scaled_exact [rotated])
qed

lemma long_timeout:
  "scaled (Finite 123456789012345) 10 = Finite 1234567890123450"
  "scaled (Finite 123456789012345) 1000 = Finite 123456789012344992"
  "scaled (Finite 123456789012344992) (1 / 1000) = Finite (7901234496790079 / 64)"
  "numberToString (Finite (7901234496790079 / 64)) = ''123456789012344.98''"
  "numberToString (Finite 123456789012345) = ''123456789012345''"
  by code_simp+

text \<open>
  Claim C6 says that when the page handler does not complete within the configured timeout
  the attempt fails with a timeout error whose message includes the configured duration in
  seconds, and \<^verbatim>\<open>markGood\<close> is never called. The message prints
  \<^verbatim>\<open>handlePageTimeoutMillis / 1000\<close>, where \<^verbatim>\<open>handlePageTimeoutMillis\<close> is
  \<^verbatim>\<open>handlePageTimeoutSecs * 1000\<close>, both rounded. Below the crawler is constructed with a
  timeout of 123456789012345 seconds, a number that prints as such; the milliseconds are
  rounded to 123456789012344992, and the message of the timeout error names
  123456789012344.98 seconds.
\<close>

theorem timeout_message_misstates_long_timeout:
  "constructor 10 longTimeoutOptions =
     (Inr longTimeoutCrawler,
      [BasicCrawlerSuper (Finite 1234567890123450), NewSessionPool, NewBrowserPool])
   \<and> handlePageTimeoutSecs longTimeoutCrawler = Finite 123456789012345
   \<and> numberToString (handlePageTimeoutSecs longTimeoutCrawler) = ''123456789012345''
   \<and> handleRequestFunction longTimeoutCrawler (exampleEnv True) exampleContext =
       (Inl (TimeoutError ''handlePageFunction timed out after 123456789012344.98 seconds.''),
        Some ((exampleCaptured 200)
                \<lparr>calls := calls (exampleCaptured 200) @ [HandlePageFunction, PageClose]\<rparr>))"
  by (simp add: constructor_def longTimeoutOptions_def longTimeoutCrawler_def exampleOptions_def
      owShape_def orDefault_def stage_defs example_defs world_defs long_timeout)

text \<open>
  Claim C6 as amended: when the page handler is reached and its promise is still pending as
  the timer fires, the attempt of a constructed crawler fails with a timeout error whose
  message contains the number \<^verbatim>\<open>handlePageTimeoutSecs * 1000 / 1000\<close> as the language
  computes and prints it, \<^verbatim>\<open>markGood\<close> is called for no session, and the page is closed once.
  The printed number is the configured \<^verbatim>\<open>handlePageTimeoutSecs\<close> (60 when the option is left
  out) whenever that is a whole number of seconds whose milliseconds are below \<open>2^53\<close>.
\<close>

theorem handler_timeout_fails_attempt:
  assumes "constructor multiplier opts = (Inr crawler, built)"
    and "newPage env (ctxId ctx) = Inr p"
    and "restoreCookies crawler env (acquired env ctx p) = (Inr (), w1)"
    and "handleNavigation crawler w1 = (Inr (), w2)"
    and "responseHandler crawler env w2 = (Inr (), w3)"
    and "saveCookies crawler env (launchSession env) (request ctx) w3 = (Inr (), w4)"
    and "fst (handlePageFunction crawler (crawlingContext w4, requests w4, page w4)) = Pending"
  shows "let secs = orDefault (handlePageTimeoutSecsOption opts) (Finite 60);
             printed = scaled (scaled secs 1000) (1 / 1000)
         in (\<exists>w. handleRequestFunction crawler env ctx =
                  (Inl (TimeoutError (''handlePageFunction timed out after ''
                     @ numberToString printed @ '' seconds.'')), Some w)
                \<and> (\<forall>s. MarkGood s \<notin> set (calls w))
                \<and> count_list (calls w) PageClose = 1)
            \<and> (\<forall>n. secs = Finite (of_nat n) \<and> n * 1000 < 2 ^ 53 \<longrightarrow> printed = secs)"
proof -
  let ?secs = "orDefault (handlePageTimeoutSecsOption opts) (Finite 60)"
  let ?printed = "scaled (scaled ?secs 1000) (1 / 1000)"
  let ?msg = "''handlePageFunction timed out after '' @ numberToString ?printed @ '' seconds.''"
  have millis: "handlePageTimeoutMillis crawler = scaled ?secs 1000"
    using assms(1) by (auto simp: constructor_def Let_def split: option.splits if_splits)
  have msg: "timeoutMessage crawler = ?msg"
    by (simp add: timeoutMessage_def millis)
  obtain w5 where h: "runHandlePageFunction crawler w4 = (Inl (TimeoutError ?msg), w5)"
    using assms(7) msg
    by (cases "handlePageFunction crawler (crawlingContext w4, requests w4, page w4)")
      (simp add: runHandlePageFunction_def addTimeoutToPromise_def split: prod.splits)
  have t: "tryBlock crawler env (launchSession env) (request ctx) w1
             = (Inl (TimeoutError ?msg), w5)"
    using assms(4,5,6) h by (simp add: tryBlock_def)
  have run: "handleRequestFunction crawler env ctx
               = (Inl (TimeoutError ?msg), Some (finallyBlock env w5))"
    using assms(2,3) t
    by (simp add: handleRequestFunction_def Let_def acquired_request acquired_session)
  have l4: "filter lateCall (calls w4) = []"
    using restoreCookies_lateE [OF assms(3)] handleNavigation_lateE [OF assms(4)]
      responseHandler_lateE [OF assms(5)] saveCookies_lateE [OF assms(6)] acquired_late
    by simp
  have "calls w5 = calls w4 @ [HandlePageFunction]"
    using runHandlePageFunction_calls [of crawler w4] h by simp
  then have late: "filter lateCall (calls (finallyBlock env w5)) = [HandlePageFunction, PageClose]"
    using finallyBlock_late [of env w5] l4 by simp
  have "\<forall>s. MarkGood s \<notin> set (calls (finallyBlock env w5))"
  proof
    fix s
    show "MarkGood s \<notin> set (calls (finallyBlock env w5))"
      using late late_mem [of "MarkGood s" "calls (finallyBlock env w5)"] by simp
  qed
  moreover have "count_list (calls (finallyBlock env w5)) PageClose = 1"
    using late late_count [of PageClose "calls (finallyBlock env w5)"] by simp
  ultimately have attempt: "\<exists>w. handleRequestFunction crawler env ctx
        = (Inl (TimeoutError ?msg), Some w)
      \<and> (\<forall>s. MarkGood s \<notin> set (calls w)) \<and> count_list (calls w) PageClose = 1"
    using run by blast
  have "\<forall>n. ?secs = Finite (of_nat n) \<and> n * 1000 < 2 ^ 53 \<longrightarrow> ?printed = ?secs"
    using scaled_whole by auto
  then show ?thesis using attempt by (simp add: Let_def)
qed

theorem handler_timeout_fails_attempt_witness:
  "(\<exists>w. handleRequestFunction (exampleCrawler Pending 200 True []) (exampleEnv True)
          exampleContext =
            (Inl (TimeoutError ''handlePageFunction timed out after 1 seconds.''), Some w)
       \<and> (\<forall>s. MarkGood s \<notin> set (calls w))
       \<and> count_list (calls w) PageClose = 1)
   \<and> orDefault (handlePageTimeoutSecsOption (exampleOptions Pending 200 True [])) (Finite 60)
       = Finite (of_nat 1)
   \<and> (1::nat) * 1000 < 2 ^ 53
   \<and> scaled (scaled (Finite 1) 1000) (1 / 1000) = Finite 1"
proof -
  have "newPage (exampleEnv True) (ctxId exampleContext) = Inr examplePage"
    and "launchSession (exampleEnv True) = Some ''session-1''"
    and "request exampleContext = 0"
    by (simp_all add: exampleEnv_def exampleContext_def)
  moreover have "fst (handlePageFunction (exampleCrawler Pending 200 True [])
      (crawlingContext (exampleCaptured 200), requests (exampleCaptured 200),
       page (exampleCaptured 200))) = Pending"
    by (simp add: exampleCrawler_def settlesAs_def)
  moreover have secs:
    "orDefault (handlePageTimeoutSecsOption (exampleOptions Pending 200 True [])) (Finite 60)
      = Finite (of_nat 1)"
    by (simp add: exampleOptions_def orDefault_def)
  ultimately show ?thesis
    using handler_timeout_fails_attempt
      [of 10 "exampleOptions Pending 200 True []" "exampleCrawler Pending 200 True []" _
        "exampleEnv True" exampleContext examplePage exampleRestored "exampleNavigated 200"
        "exampleClassified 200" "exampleCaptured 200"]
      example_constructor [of Pending 200 True "[]"] example_restore example_navigation
      example_classification [of 200] example_capture
    by (simp add: Let_def one_second)
qed
section \<open>The loaded url\<close>

text \<open>
  Claim C8 says that every attempt whose navigation succeeds has \<^verbatim>\<open>request.loadedUrl\<close> set
  from the live page url. The code sets it at the end of \<^verbatim>\<open>_responseHandler\<close>, after the
  blocked-status check: below the navigation returns (with status 403), the check raises,
  and \<open>loadedUrl\<close> is still unset when the attempt ends.
\<close>

theorem blocked_navigation_leaves_loadedUrl_unset:
  "handleNavigation (exampleCrawler Resolved 403 True []) exampleRestored
     = (Inr (), exampleNavigated 403)
   \<and> handleRequestFunction (exampleCrawler Resolved 403 True []) (exampleEnv True) exampleContext =
       (Inl (BlockedResponseError 403),
        Some \<lparr>crawlingContext =
                \<lparr>ctxId = ''attempt-1'', request = 0,
                 session = Some ''session-1'', proxyInfo = None,
                 response = StatusResponse 403\<rparr>,
              requests = (\<lambda>r. \<lparr>url = ''http://example.com/'', loadedUrl = None\<rparr>),
              page = \<lparr>liveUrl = ''http://example.com/landing'', cookies = [(''sid'', ''42'')]\<rparr>,
              gotoOptions = [],
              calls = [NewPage ''attempt-1'',
                       GetPuppeteerCookies ''session-1'' ''http://example.com/'',
                       SetCookies [], GotoFunction [], SessionRetire ''session-1'',
                       PageClose]\<rparr>)"
  by (simp add: stage_defs example_defs world_defs exampleRequests_def)

text \<open>
  Claim C8 as amended: whenever response handling returns normally, \<^verbatim>\<open>request.loadedUrl\<close> is
  the url the live page has at that moment; the requested url and the page are unchanged.
\<close>

theorem loadedUrl_is_live_page_url:
  assumes "responseHandler crawler env w = (Inr u, w')"
  shows "loadedUrl (currentRequest w') = Some (liveUrl (page w))
         \<and> url (currentRequest w') = url (currentRequest w)
         \<and> request (crawlingContext w') = request (crawlingContext w)
         \<and> page w' = page w"
  using responseHandler_ok [OF assms] by (simp add: currentRequest_def)

theorem loadedUrl_is_live_page_url_witness:
  "loadedUrl (currentRequest (exampleClassified 200)) = Some ''http://example.com/landing''
   \<and> url (currentRequest (exampleClassified 200)) = ''http://example.com/''
   \<and> request (crawlingContext (exampleClassified 200)) = 0
   \<and> page (exampleClassified 200) = page (exampleNavigated 200)"
  using loadedUrl_is_live_page_url [OF example_classification [of 200 Resolved]]
  by (simp add: world_defs exampleContext_def currentRequest_def)
section \<open>Crawlers without a session pool\<close>

text \<open>
  Claim C10: for a crawler constructed with \<^verbatim>\<open>useSessionPool\<close> false, response handling
  makes no call and raises nothing whatever the response is: it only records the live page
  url as \<^verbatim>\<open>loadedUrl\<close>.
\<close>

theorem no_session_pool_no_blocked_check:
  assumes "constructor multiplier opts = (Inr crawler, built)"
    and "useSessionPoolOption opts = Some False"
  shows "responseHandler crawler env w =
           (Inr (), w\<lparr>requests := (requests w)
              (request (crawlingContext w) :=
                 (currentRequest w)\<lparr>loadedUrl := Some (liveUrl (page w))\<rparr>)\<rparr>)"
proof -
  have "sessionPool crawler = None"
    using assms
    by (auto simp: constructor_def Let_def orDefault_def split: option.splits if_splits)
  then show ?thesis by (simp add: responseHandler_def)
qed

theorem no_session_pool_no_blocked_check_witness:
  "403 \<in> set (blockedStatusCodes (exampleEnv False))
   \<and> response (crawlingContext (exampleNavigated 403)) = StatusResponse 403
   \<and> responseHandler (exampleCrawler Resolved 403 False []) (exampleEnv False)
       (exampleNavigated 403) = (Inr (), exampleClassified 403)"
  using no_session_pool_no_blocked_check
    [OF example_constructor [of Resolved 403 False "[]"], of "exampleEnv False"
      "exampleNavigated 403"]
  by (simp add: exampleOptions_def world_defs exampleContext_def exampleEnv_def currentRequest_def)

section \<open>Invalid options\<close>

text \<open>
  Claim C4: constructing the crawler with \<^verbatim>\<open>persistCookiesPerSession\<close> true and
  \<^verbatim>\<open>useSessionPool\<close> false raises inside the constructor before anything is created:
  neither the base crawler nor a session pool nor a browser pool. When the options have the
  required shape the error is the one about cookie persistence.
\<close>

theorem cookie_persistence_requires_session_pool:
  assumes "persistCookiesPerSessionOption opts = Some True"
    and "useSessionPoolOption opts = Some False"
  shows "constructor multiplier opts =
           (Inl (if owShape opts then Error persistCookiesMessage else ArgumentError), [])"
  using assms
  by (auto simp: constructor_def owShape_def orDefault_def Let_def split: option.splits)

theorem cookie_persistence_requires_session_pool_witness:
  "constructor 10 ((exampleOptions Resolved 200 True [])\<lparr>useSessionPoolOption := Some False\<rparr>)
     = (Inl (Error persistCookiesMessage), [])"
  using cookie_persistence_requires_session_pool
    [of "(exampleOptions Resolved 200 True [])\<lparr>useSessionPoolOption := Some False\<rparr>" 10]
  by (simp add: exampleOptions_def owShape_def)

section \<open>Navigation hooks\<close>

text \<open>
  The loop of \<^verbatim>\<open>_executeHooks\<close> against \<open>afterHooks\<close>: when every hook returns, all of them
  are called, the hook at position \<open>i\<close> with the options the hooks before it left; when the
  hook at position \<open>j\<close> is the first to raise, the hooks up to \<open>j\<close> are called and no other,
  and the loop raises what that hook raised.
\<close>

lemma afterHooks_Nil [simp]: "afterHooks [] u = u"
  and afterHooks_Cons [simp]: "afterHooks (h # hs) u = afterHooks hs (snd (h u))"
  by (simp_all add: afterHooks_def)

lemma hookOutcome_0 [simp]: "hookOutcome (h # hs) u 0 = fst (h u)"
  and hookOutcome_Suc [simp]: "hookOutcome (h # hs) u (Suc i) = hookOutcome hs (snd (h u)) i"
  by (simp_all add: hookOutcome_def)

lemma allReturn_iff:
  "allReturn hooks u \<longleftrightarrow> (\<forall>i<length hooks. hookOutcome hooks u i = Inr ())"
  by (auto simp: allReturn_def list_all_iff)

lemma firstRaise_iff:
  "firstRaise hooks u j e \<longleftrightarrow>
     j < length hooks \<and> (\<forall>i<j. hookOutcome hooks u i = Inr ()) \<and> hookOutcome hooks u j = Inl e"
  by (auto simp: firstRaise_def list_all_iff)

lemma hooks_return_or_raise: "allReturn hooks u \<or> (\<exists>j e. firstRaise hooks u j e)"
proof (cases "allReturn hooks u")
  case True
  then show ?thesis by simp
next
  case False
  let ?bad = "\<lambda>i. i < length hooks \<and> hookOutcome hooks u i \<noteq> Inr ()"
  have "\<exists>i. ?bad i" using False by (auto simp: allReturn_iff)
  then have least: "?bad (LEAST i. ?bad i)" by (rule LeastI_ex)
  have before: "\<not> ?bad i" if "i < (LEAST i. ?bad i)" for i
    using that by (rule not_less_Least)
  obtain e where "hookOutcome hooks u (LEAST i. ?bad i) = Inl e"
    using least by (cases "hookOutcome hooks u (LEAST i. ?bad i)") auto
  then have "firstRaise hooks u (LEAST i. ?bad i) e"
    unfolding firstRaise_iff using least before by (meson less_trans)
  then show ?thesis by blast
qed

lemma callHook_result:
  "callHook i h w = (fst (h (userState w)),
     w\<lparr>crawlingContext := fst (snd (h (userState w))),
       requests := fst (snd (snd (h (userState w)))),
       page := fst (snd (snd (snd (h (userState w))))),
       gotoOptions := snd (snd (snd (snd (h (userState w))))),
       calls := calls w @ [Hook i (gotoOptions w)]\<rparr>)"
  by (simp add: callHook_def split: prod.splits)

lemma callHook_userState: "userState (snd (callHook i h w)) = snd (h (userState w))"
  by (simp add: callHook_result userState_def)

lemma optionsOf_userState [simp]: "optionsOf (userState w) = gotoOptions w"
  by (simp add: optionsOf_def userState_def)

lemma forHooks_all_return:
  "\<forall>i<length hs. hookOutcome hs (userState w) i = Inr () \<Longrightarrow>
   \<exists>w'. forHooks (enumerate n hs) w = (Inr (), w')
     \<and> calls w' = calls w
         @ map (\<lambda>i. Hook (n + i) (optionsOf (afterHooks (take i hs) (userState w))))
             [0..<length hs]
     \<and> userState w' = afterHooks hs (userState w)"
proof (induction hs arbitrary: n w)
  case Nil
  then show ?case by simp
next
  case (Cons h hs)
  obtain r1 w1 where c: "callHook n h w = (r1, w1)" by (cases "callHook n h w")
  have "hookOutcome (h # hs) (userState w) 0 = Inr ()" using Cons.prems by auto
  then have r1: "r1 = Inr ()" using c by (simp add: callHook_result)
  have u1: "userState w1 = snd (h (userState w))"
    using callHook_userState [of n h w] c by simp
  have c1: "calls w1 = calls w @ [Hook n (optionsOf (userState w))]"
    using callHook_calls [of n h w] c by simp
  have "\<forall>i<length hs. hookOutcome hs (userState w1) i = Inr ()"
  proof (intro allI impI)
    fix i assume "i < length hs"
    then have "hookOutcome (h # hs) (userState w) (Suc i) = Inr ()" using Cons.prems by auto
    then show "hookOutcome hs (userState w1) i = Inr ()" using u1 by simp
  qed
  from Cons.IH [OF this, of "Suc n"] obtain w' where w':
    "forHooks (enumerate (Suc n) hs) w1 = (Inr (), w')"
    "calls w' = calls w1
       @ map (\<lambda>i. Hook (Suc n + i) (optionsOf (afterHooks (take i hs) (userState w1))))
           [0..<length hs]"
    "userState w' = afterHooks hs (userState w1)"
    by blast
  have "forHooks (enumerate n (h # hs)) w = (Inr (), w')"
    using c r1 w'(1) by simp
  moreover have "calls w' = calls w
       @ map (\<lambda>i. Hook (n + i) (optionsOf (afterHooks (take i (h # hs)) (userState w))))
           [0..<length (h # hs)]"
    using w'(2) c1 u1 by (simp add: map_upt_Suc del: upt_Suc)
  moreover have "userState w' = afterHooks (h # hs) (userState w)"
    using w'(3) u1 by simp
  ultimately show ?case by blast
qed

lemma forHooks_first_raise:
  "j < length hs \<Longrightarrow> \<forall>i<j. hookOutcome hs (userState w) i = Inr () \<Longrightarrow>
   hookOutcome hs (userState w) j = Inl e \<Longrightarrow>
   \<exists>w'. forHooks (enumerate n hs) w = (Inl e, w')
     \<and> calls w' = calls w
         @ map (\<lambda>i. Hook (n + i) (optionsOf (afterHooks (take i hs) (userState w))))
             [0..<Suc j]
     \<and> userState w' = afterHooks (take (Suc j) hs) (userState w)"
proof (induction hs arbitrary: n w j)
  case Nil
  then show ?case by simp
next
  case (Cons h hs)
  obtain r1 w1 where c: "callHook n h w = (r1, w1)" by (cases "callHook n h w")
  have r1: "r1 = fst (h (userState w))" using c by (simp add: callHook_result)
  have u1: "userState w1 = snd (h (userState w))"
    using callHook_userState [of n h w] c by simp
  have c1: "calls w1 = calls w @ [Hook n (optionsOf (userState w))]"
    using callHook_calls [of n h w] c by simp
  show ?case
  proof (cases j)
    case 0
    then have "r1 = Inl e" using Cons.prems(3) r1 by simp
    then have "forHooks (enumerate n (h # hs)) w = (Inl e, w1)" using c by simp
    then show ?thesis using 0 c1 u1 by simp
  next
    case (Suc j')
    have "hookOutcome (h # hs) (userState w) 0 = Inr ()" using Cons.prems(2) Suc by blast
    then have ok: "r1 = Inr ()" using r1 by simp
    have a: "j' < length hs" using Cons.prems(1) Suc by simp
    have b: "\<forall>i<j'. hookOutcome hs (userState w1) i = Inr ()"
    proof (intro allI impI)
      fix i assume "i < j'"
      then have "hookOutcome (h # hs) (userState w) (Suc i) = Inr ()"
        using Cons.prems(2) Suc by auto
      then show "hookOutcome hs (userState w1) i = Inr ()" using u1 by simp
    qed
    have d: "hookOutcome hs (userState w1) j' = Inl e" using Cons.prems(3) Suc u1 by simp
    from Cons.IH [OF a b d, of "Suc n"] obtain w' where w':
      "forHooks (enumerate (Suc n) hs) w1 = (Inl e, w')"
      "calls w' = calls w1
         @ map (\<lambda>i. Hook (Suc n + i) (optionsOf (afterHooks (take i hs) (userState w1))))
             [0..<Suc j']"
      "userState w' = afterHooks (take (Suc j') hs) (userState w1)"
      by blast
    have "forHooks (enumerate n (h # hs)) w = (Inl e, w')"
      using c ok w'(1) by simp
    moreover have "calls w' = calls w
         @ map (\<lambda>i. Hook (n + i) (optionsOf (afterHooks (take i (h # hs)) (userState w))))
             [0..<Suc j]"
      using w'(2) c1 u1 Suc by (simp add: map_upt_Suc del: upt_Suc)
    moreover have "userState w' = afterHooks (take (Suc j) (h # hs)) (userState w)"
      using w'(3) u1 Suc by simp
    ultimately show ?thesis by blast
  qed
qed

lemma executeHooks_forHooks: "executeHooks hooks w = forHooks (enumerate 0 hooks) w"
  by (cases hooks) (simp_all add: executeHooks_def)

lemma executeHooks_all_return:
  assumes "allReturn hooks (userState w)"
  shows "\<exists>w'. executeHooks hooks w = (Inr (), w')
     \<and> calls w' = calls w @ hookCalls hooks (userState w) (length hooks)
     \<and> userState w' = afterHooks hooks (userState w)"
  using forHooks_all_return [of hooks w 0] assms
  by (simp add: executeHooks_forHooks allReturn_iff hookCalls_def)

lemma executeHooks_first_raise:
  assumes "firstRaise hooks (userState w) j e"
  shows "\<exists>w'. executeHooks hooks w = (Inl e, w')
     \<and> calls w' = calls w @ hookCalls hooks (userState w) (Suc j)
     \<and> userState w' = afterHooks (take (Suc j) hooks) (userState w)"
  using forHooks_first_raise [of j hooks w e 0] assms
  by (simp add: executeHooks_forHooks firstRaise_iff hookCalls_def)

lemma navigationHandler_result:
  "gotoFunction crawler = Some goto \<Longrightarrow>
   fst (navigationHandler crawler w) = fst (goto (userState w))
   \<and> userState (snd (navigationHandler crawler w)) = snd (goto (userState w))
   \<and> calls (snd (navigationHandler crawler w)) = calls w @ [GotoFunction (gotoOptions w)]"
  by (simp add: navigationHandler_def userState_def split: prod.splits)

lemma attempt_fails_with_navigation:
  assumes "newPage env (ctxId ctx) = Inr p"
    and "restoreCookies crawler env (acquired env ctx p) = (Inr (), x)"
    and "handleNavigation crawler x = (Inl e, x')"
  shows "\<exists>logged. handleRequestFunction crawler env ctx = (Inl e, Some (finallyBlock env x'))
           \<and> calls (finallyBlock env x') = calls x' @ PageClose # logged
           \<and> set logged \<subseteq> {LogDebug ''Error while closing page''}"
  using assms finallyBlock_log [of env x']
  by (simp add: handleRequestFunction_def Let_def tryBlock_def)

lemma hookState_userState:
  "userState (w\<lparr>gotoOptions := crawlerGotoOptions crawler\<rparr>) = hookState crawler w"
  by (simp add: userState_def hookState_def)

lemma withResponse_userState:
  "userState (w\<lparr>crawlingContext := (crawlingContext w)\<lparr>response := resp\<rparr>\<rparr>)
     = withResponse resp (userState w)"
  by (simp add: userState_def withResponse_def)

text \<open>
  The pre-navigation hooks, the navigation function and the post-navigation hooks inside
  \<^verbatim>\<open>_handleNavigation\<close>.
\<close>

lemma pre_hook_raises:
  assumes "firstRaise (preNavigationHooks crawler) (hookState crawler x) j e"
  shows "\<exists>x'. handleNavigation crawler x = (Inl e, x')
     \<and> calls x' = calls x @ hookCalls (preNavigationHooks crawler) (hookState crawler x) (Suc j)"
proof -
  let ?w0 = "x\<lparr>gotoOptions := crawlerGotoOptions crawler\<rparr>"
  obtain x' where "executeHooks (preNavigationHooks crawler) ?w0 = (Inl e, x')"
    "calls x' = calls ?w0 @ hookCalls (preNavigationHooks crawler) (userState ?w0) (Suc j)"
    using executeHooks_first_raise [of "preNavigationHooks crawler" ?w0 j e] assms
    by (auto simp: hookState_userState)
  then show ?thesis by (simp add: handleNavigation_def hookState_userState)
qed

lemma pre_hooks_return:
  assumes "allReturn (preNavigationHooks crawler) (hookState crawler x)"
    and "gotoFunction crawler = Some goto"
  shows "\<exists>v1 v2. executeHooks (preNavigationHooks crawler)
                    (x\<lparr>gotoOptions := crawlerGotoOptions crawler\<rparr>) = (Inr (), v1)
     \<and> userState v1 = afterHooks (preNavigationHooks crawler) (hookState crawler x)
     \<and> navigationHandler crawler v1
         = (fst (goto (afterHooks (preNavigationHooks crawler) (hookState crawler x))), v2)
     \<and> calls v2 = calls x
         @ hookCalls (preNavigationHooks crawler) (hookState crawler x)
             (length (preNavigationHooks crawler))
         @ [GotoFunction
              (optionsOf (afterHooks (preNavigationHooks crawler) (hookState crawler x)))]
     \<and> userState v2 = snd (goto (afterHooks (preNavigationHooks crawler) (hookState crawler x)))
     \<and> handleNavigation crawler x =
         (case fst (goto (afterHooks (preNavigationHooks crawler) (hookState crawler x))) of
            Inl e \<Rightarrow> (Inl e, v2)
          | Inr resp \<Rightarrow>
              executeHooks (postNavigationHooks crawler)
                (v2\<lparr>crawlingContext := (crawlingContext v2)\<lparr>response := resp\<rparr>\<rparr>))"
proof -
  let ?pre = "preNavigationHooks crawler"
  let ?w0 = "x\<lparr>gotoOptions := crawlerGotoOptions crawler\<rparr>"
  let ?u = "afterHooks ?pre (hookState crawler x)"
  obtain v1 where v1: "executeHooks ?pre ?w0 = (Inr (), v1)"
    "calls v1 = calls x @ hookCalls ?pre (hookState crawler x) (length ?pre)"
    "userState v1 = ?u"
    using executeHooks_all_return [of ?pre ?w0] assms(1)
    by (auto simp: hookState_userState)
  obtain r2 v2 where n: "navigationHandler crawler v1 = (r2, v2)"
    by (cases "navigationHandler crawler v1")
  have r2: "r2 = fst (goto ?u)" and u2: "userState v2 = snd (goto ?u)"
    and c2: "calls v2 = calls v1 @ [GotoFunction (optionsOf ?u)]"
    using navigationHandler_result [OF assms(2), of v1] n v1(3)
      optionsOf_userState [of v1] by simp_all
  have "handleNavigation crawler x =
         (case fst (goto ?u) of
            Inl e \<Rightarrow> (Inl e, v2)
          | Inr resp \<Rightarrow>
              executeHooks (postNavigationHooks crawler)
                (v2\<lparr>crawlingContext := (crawlingContext v2)\<lparr>response := resp\<rparr>\<rparr>))"
    using v1(1) n r2 by (simp add: handleNavigation_def split: sum.splits)
  then show ?thesis using v1 n r2 u2 c2 by auto
qed

lemma post_hook_raises:
  assumes "allReturn (preNavigationHooks crawler) (hookState crawler x)"
    and "gotoFunction crawler = Some goto"
    and "goto (afterHooks (preNavigationHooks crawler) (hookState crawler x)) = (Inr resp, u)"
    and "firstRaise (postNavigationHooks crawler) (withResponse resp u) j e"
  shows "\<exists>x'. handleNavigation crawler x = (Inl e, x')
     \<and> calls x' = calls x
         @ hookCalls (preNavigationHooks crawler) (hookState crawler x)
             (length (preNavigationHooks crawler))
         @ [GotoFunction
              (optionsOf (afterHooks (preNavigationHooks crawler) (hookState crawler x)))]
         @ hookCalls (postNavigationHooks crawler) (withResponse resp u) (Suc j)"
proof -
  let ?pre = "preNavigationHooks crawler"
  let ?post = "postNavigationHooks crawler"
  let ?u = "afterHooks ?pre (hookState crawler x)"
  obtain v2 where v2:
    "calls v2 = calls x @ hookCalls ?pre (hookState crawler x) (length ?pre)
       @ [GotoFunction (optionsOf ?u)]"
    "userState v2 = snd (goto ?u)"
    "handleNavigation crawler x =
       (case fst (goto ?u) of
          Inl e \<Rightarrow> (Inl e, v2)
        | Inr resp \<Rightarrow>
            executeHooks ?post (v2\<lparr>crawlingContext := (crawlingContext v2)\<lparr>response := resp\<rparr>\<rparr>))"
    using pre_hooks_return [OF assms(1,2)] by blast
  let ?v3 = "v2\<lparr>crawlingContext := (crawlingContext v2)\<lparr>response := resp\<rparr>\<rparr>"
  have u3: "userState ?v3 = withResponse resp u"
    using v2(2) assms(3) by (simp add: withResponse_userState)
  obtain x' where x': "executeHooks ?post ?v3 = (Inl e, x')"
    "calls x' = calls ?v3 @ hookCalls ?post (userState ?v3) (Suc j)"
    using executeHooks_first_raise [of ?post ?v3 j e] assms(4) u3 by auto
  have "handleNavigation crawler x = (Inl e, x')"
    using v2(3) assms(3) x'(1) by simp
  moreover have "calls x' = calls x @ hookCalls ?pre (hookState crawler x) (length ?pre)
       @ [GotoFunction (optionsOf ?u)] @ hookCalls ?post (withResponse resp u) (Suc j)"
    using x'(2) v2(1) u3 by simp
  ultimately show ?thesis by blast
qed

text \<open>
  Claim C5. (1) Of a list of hooks either all return or there is a first one that raises.
  (2) When all return, \<^verbatim>\<open>_executeHooks\<close> calls every hook, in the order of the list, the
  hook at position \<open>i\<close> on the state and \<^verbatim>\<open>gotoOptions\<close> that the hooks before it left, and
  returns; the state it leaves is the one the last hook left. (3) When the hook at position
  \<open>j\<close> is the first to raise, the hooks up to position \<open>j\<close> are called in the same way, no
  hook after it is called, and \<^verbatim>\<open>_executeHooks\<close> raises the error of that hook. (4) In an
  attempt that reaches navigation, when a pre-navigation hook is the first to raise, the
  attempt fails with its error; after that hook only \<^verbatim>\<open>page.close\<close> is called, so no later
  hook, no navigation and no page handler. (5) When all pre-navigation hooks return, the
  navigation function is called next, on the state and \<^verbatim>\<open>gotoOptions\<close> the last hook left.
  (6) When the navigation function returns a response and a post-navigation hook is the
  first to raise, the attempt fails with its error, and again only \<^verbatim>\<open>page.close\<close> follows
  that hook.
\<close>

theorem navigation_hooks_run_in_order:
  fixes w x :: world
  shows
  "(allReturn hooks (userState w) \<or> (\<exists>j e. firstRaise hooks (userState w) j e))
   \<and> (allReturn hooks (userState w) \<longrightarrow>
        (\<exists>w'. executeHooks hooks w = (Inr (), w')
           \<and> calls w' = calls w @ hookCalls hooks (userState w) (length hooks)
           \<and> userState w' = afterHooks hooks (userState w)))
   \<and> (firstRaise hooks (userState w) j e \<longrightarrow>
        (\<exists>w'. executeHooks hooks w = (Inl e, w')
           \<and> calls w' = calls w @ hookCalls hooks (userState w) (Suc j)
           \<and> userState w' = afterHooks (take (Suc j) hooks) (userState w)))
   \<and> (newPage env (ctxId ctx) = Inr p
        \<and> restoreCookies crawler env (acquired env ctx p) = (Inr (), x)
        \<and> firstRaise (preNavigationHooks crawler) (hookState crawler x) j1 e1 \<longrightarrow>
        (\<exists>v logged. handleRequestFunction crawler env ctx = (Inl e1, Some v)
           \<and> calls v = calls x
               @ hookCalls (preNavigationHooks crawler) (hookState crawler x) (Suc j1)
               @ PageClose # logged
           \<and> set logged \<subseteq> {LogDebug ''Error while closing page''}))
   \<and> (allReturn (preNavigationHooks crawler) (hookState crawler x)
        \<and> gotoFunction crawler = Some goto \<longrightarrow>
        (\<exists>v1 v2. executeHooks (preNavigationHooks crawler)
                    (x\<lparr>gotoOptions := crawlerGotoOptions crawler\<rparr>) = (Inr (), v1)
           \<and> userState v1 = afterHooks (preNavigationHooks crawler) (hookState crawler x)
           \<and> navigationHandler crawler v1
               = (fst (goto (afterHooks (preNavigationHooks crawler) (hookState crawler x))),
                  v2)
           \<and> calls v2 = calls x
               @ hookCalls (preNavigationHooks crawler) (hookState crawler x)
                   (length (preNavigationHooks crawler))
               @ [GotoFunction
                    (optionsOf (afterHooks (preNavigationHooks crawler) (hookState crawler x)))]
           \<and> userState v2
               = snd (goto (afterHooks (preNavigationHooks crawler) (hookState crawler x)))
           \<and> handleNavigation crawler x =
               (case fst (goto (afterHooks (preNavigationHooks crawler)
                                  (hookState crawler x))) of
                  Inl e \<Rightarrow> (Inl e, v2)
                | Inr resp \<Rightarrow>
                    executeHooks (postNavigationHooks crawler)
                      (v2\<lparr>crawlingContext := (crawlingContext v2)\<lparr>response := resp\<rparr>\<rparr>))))
   \<and> (newPage env (ctxId ctx) = Inr p
        \<and> restoreCookies crawler env (acquired env ctx p) = (Inr (), x)
        \<and> allReturn (preNavigationHooks crawler) (hookState crawler x)
        \<and> gotoFunction crawler = Some goto
        \<and> goto (afterHooks (preNavigationHooks crawler) (hookState crawler x)) = (Inr resp, u)
        \<and> firstRaise (postNavigationHooks crawler) (withResponse resp u) j2 e2 \<longrightarrow>
        (\<exists>v logged. handleRequestFunction crawler env ctx = (Inl e2, Some v)
           \<and> calls v = calls x
               @ hookCalls (preNavigationHooks crawler) (hookState crawler x)
                   (length (preNavigationHooks crawler))
               @ [GotoFunction
                    (optionsOf (afterHooks (preNavigationHooks crawler) (hookState crawler x)))]
               @ hookCalls (postNavigationHooks crawler) (withResponse resp u) (Suc j2)
               @ PageClose # logged
           \<and> set logged \<subseteq> {LogDebug ''Error while closing page''}))"
proof (intro conjI impI)
  show "allReturn hooks (userState w) \<or> (\<exists>j e. firstRaise hooks (userState w) j e)"
    by (rule hooks_return_or_raise)
next
  assume "allReturn hooks (userState w)"
  then show "\<exists>w'. executeHooks hooks w = (Inr (), w')
           \<and> calls w' = calls w @ hookCalls hooks (userState w) (length hooks)
           \<and> userState w' = afterHooks hooks (userState w)"
    by (rule executeHooks_all_return)
next
  assume "firstRaise hooks (userState w) j e"
  then show "\<exists>w'. executeHooks hooks w = (Inl e, w')
           \<and> calls w' = calls w @ hookCalls hooks (userState w) (Suc j)
           \<and> userState w' = afterHooks (take (Suc j) hooks) (userState w)"
    by (rule executeHooks_first_raise)
next
  assume a: "newPage env (ctxId ctx) = Inr p
        \<and> restoreCookies crawler env (acquired env ctx p) = (Inr (), x)
        \<and> firstRaise (preNavigationHooks crawler) (hookState crawler x) j1 e1"
  then obtain x' where x': "handleNavigation crawler x = (Inl e1, x')"
    "calls x' = calls x
       @ hookCalls (preNavigationHooks crawler) (hookState crawler x) (Suc j1)"
    using pre_hook_raises [of crawler x j1 e1] by blast
  obtain logged where "handleRequestFunction crawler env ctx
        = (Inl e1, Some (finallyBlock env x'))"
    "calls (finallyBlock env x') = calls x' @ PageClose # logged"
    "set logged \<subseteq> {LogDebug ''Error while closing page''}"
    using attempt_fails_with_navigation [of env ctx p crawler x e1 x'] a x'(1) by blast
  then show "\<exists>v logged. handleRequestFunction crawler env ctx = (Inl e1, Some v)
           \<and> calls v = calls x
               @ hookCalls (preNavigationHooks crawler) (hookState crawler x) (Suc j1)
               @ PageClose # logged
           \<and> set logged \<subseteq> {LogDebug ''Error while closing page''}"
    using x'(2) by auto
next
  assume "allReturn (preNavigationHooks crawler) (hookState crawler x)
        \<and> gotoFunction crawler = Some goto"
  then show "\<exists>v1 v2. executeHooks (preNavigationHooks crawler)
                    (x\<lparr>gotoOptions := crawlerGotoOptions crawler\<rparr>) = (Inr (), v1)
           \<and> userState v1 = afterHooks (preNavigationHooks crawler) (hookState crawler x)
           \<and> navigationHandler crawler v1
               = (fst (goto (afterHooks (preNavigationHooks crawler) (hookState crawler x))),
                  v2)
           \<and> calls v2 = calls x
               @ hookCalls (preNavigationHooks crawler) (hookState crawler x)
                   (length (preNavigationHooks crawler))
               @ [GotoFunction
                    (optionsOf (afterHooks (preNavigationHooks crawler) (hookState crawler x)))]
           \<and> userState v2
               = snd (goto (afterHooks (preNavigationHooks crawler) (hookState crawler x)))
           \<and> handleNavigation crawler x =
               (case fst (goto (afterHooks (preNavigationHooks crawler)
                                  (hookState crawler x))) of
                  Inl e \<Rightarrow> (Inl e, v2)
                | Inr resp \<Rightarrow>
                    executeHooks (postNavigationHooks crawler)
                      (v2\<lparr>crawlingContext := (crawlingContext v2)\<lparr>response := resp\<rparr>\<rparr>))"
    using pre_hooks_return [of crawler x goto] by blast
next
  assume a: "newPage env (ctxId ctx) = Inr p
        \<and> restoreCookies crawler env (acquired env ctx p) = (Inr (), x)
        \<and> allReturn (preNavigationHooks crawler) (hookState crawler x)
        \<and> gotoFunction crawler = Some goto
        \<and> goto (afterHooks (preNavigationHooks crawler) (hookState crawler x)) = (Inr resp, u)
        \<and> firstRaise (postNavigationHooks crawler) (withResponse resp u) j2 e2"
  then obtain x' where x': "handleNavigation crawler x = (Inl e2, x')"
    "calls x' = calls x
       @ hookCalls (preNavigationHooks crawler) (hookState crawler x)
           (length (preNavigationHooks crawler))
       @ [GotoFunction
            (optionsOf (afterHooks (preNavigationHooks crawler) (hookState crawler x)))]
       @ hookCalls (postNavigationHooks crawler) (withResponse resp u) (Suc j2)"
    using post_hook_raises [of crawler x goto resp u j2 e2] by blast
  obtain logged where "handleRequestFunction crawler env ctx
        = (Inl e2, Some (finallyBlock env x'))"
    "calls (finallyBlock env x') = calls x' @ PageClose # logged"
    "set logged \<subseteq> {LogDebug ''Error while closing page''}"
    using attempt_fails_with_navigation [of env ctx p crawler x e2 x'] a x'(1) by blast
  then show "\<exists>v logged. handleRequestFunction crawler env ctx = (Inl e2, Some v)
           \<and> calls v = calls x
               @ hookCalls (preNavigationHooks crawler) (hookState crawler x)
                   (length (preNavigationHooks crawler))
               @ [GotoFunction
                    (optionsOf (afterHooks (preNavigationHooks crawler) (hookState crawler x)))]
               @ hookCalls (postNavigationHooks crawler) (withResponse resp u) (Suc j2)
               @ PageClose # logged
           \<and> set logged \<subseteq> {LogDebug ''Error while closing page''}"
    using x'(2) by auto
qed

theorem navigation_hooks_run_in_order_witness:
  "allReturn [setHeader, requireHeader] (userState exampleRestored)
   \<and> executeHooks [setHeader, requireHeader] exampleRestored = (Inr (), exampleHooked)
   \<and> calls exampleHooked = calls exampleRestored @ [Hook 0 [], Hook 1 [(''x-test'', ''1'')]]
   \<and> firstRaise [failingHook, setHeader] (userState exampleRestored) 0 (Thrown ''hook failed'')
   \<and> executeHooks [failingHook, setHeader] exampleRestored
        = (Inl (Thrown ''hook failed''), exampleHookFailed)
   \<and> calls exampleHookFailed = calls exampleRestored @ [Hook 0 []]
   \<and> (\<exists>v logged.
         handleRequestFunction (exampleCrawler Resolved 200 True [failingHook, setHeader])
           (exampleEnv True) exampleContext = (Inl (Thrown ''hook failed''), Some v)
       \<and> calls v = calls exampleRestored @ [Hook 0 [], PageClose] @ logged)
   \<and> (\<exists>v2. navigationHandler (exampleCrawler Resolved 200 True [setHeader, requireHeader])
               exampleHooked = (Inr (StatusResponse 200), v2)
       \<and> calls v2 = calls exampleRestored
           @ [Hook 0 [], Hook 1 [(''x-test'', ''1'')], GotoFunction [(''x-test'', ''1'')]])
   \<and> firstRaise (postNavigationHooks postHookCrawler)
        (withResponse (StatusResponse 200) (userState examplePostHookFailed)) 1
        (Thrown ''hook failed'')
   \<and> (\<exists>v logged.
         handleRequestFunction postHookCrawler (exampleEnv True) exampleContext
           = (Inl (Thrown ''hook failed''), Some v)
       \<and> calls v = calls exampleRestored
           @ [Hook 0 [], GotoFunction [(''x-test'', ''1'')], Hook 0 [(''x-test'', ''1'')],
              Hook 1 [(''x-test'', ''1'')], PageClose] @ logged)"
proof -
  let ?ok = "exampleCrawler Resolved 200 True [setHeader, requireHeader]"
  let ?bad = "exampleCrawler Resolved 200 True [failingHook, setHeader]"
  let ?e = "Thrown ''hook failed''"
  let ?u = "userState exampleRestored"
  let ?landed = "snd (redirectingGoto 200 (afterHooks [setHeader] ?u))"
  have u: "?u = (exampleContext\<lparr>session := Some ''session-1''\<rparr>, exampleRequests,
                 examplePage, [])"
    by (simp add: userState_def exampleRestored_def)
  have states: "hookState ?ok exampleRestored = ?u" "hookState ?bad exampleRestored = ?u"
    "hookState postHookCrawler exampleRestored = ?u"
    "exampleRestored\<lparr>gotoOptions := []\<rparr> = exampleRestored"
    by (simp_all add: hookState_def userState_def exampleRestored_def exampleCrawler_def
        postHookCrawler_def)
  have crawlers: "preNavigationHooks ?ok = [setHeader, requireHeader]"
    "preNavigationHooks ?bad = [failingHook, setHeader]"
    "preNavigationHooks postHookCrawler = [setHeader]"
    "postNavigationHooks postHookCrawler = [requireHeader, failingHook]"
    "crawlerGotoOptions ?ok = []"
    "gotoFunction ?ok = Some (redirectingGoto 200)"
    "gotoFunction postHookCrawler = Some (redirectingGoto 200)"
    by (simp_all add: exampleCrawler_def postHookCrawler_def)
  have page: "newPage (exampleEnv True) (ctxId exampleContext) = Inr examplePage"
    by (simp add: exampleEnv_def)
  have restore: "restoreCookies c (exampleEnv True)
      (acquired (exampleEnv True) exampleContext examplePage) = (Inr (), exampleRestored)"
    if "c = ?bad \<or> c = postHookCrawler" for c
    using that example_restore [of Resolved 200 "[failingHook, setHeader]"]
      example_restore [of Resolved 200 "[setHeader]"]
    by (auto simp: postHookCrawler_def restoreCookies_def)
  have all2: "allReturn [setHeader, requireHeader] ?u"
    by (simp add: allReturn_def u setHeader_def requireHeader_def)
  have all1: "allReturn [setHeader] ?u"
    by (simp add: allReturn_def u setHeader_def)
  have first0: "firstRaise [failingHook, setHeader] ?u 0 ?e"
    by (simp add: firstRaise_def failingHook_def)
  have landed: "redirectingGoto 200 (afterHooks [setHeader] ?u)
      = (Inr (StatusResponse 200), ?landed)"
    by (simp add: u setHeader_def redirectingGoto_def)
  have first1: "firstRaise [requireHeader, failingHook]
      (withResponse (StatusResponse 200) ?landed) 1 ?e"
    by (simp add: firstRaise_def u setHeader_def redirectingGoto_def withResponse_def
        requireHeader_def failingHook_def)
  have same: "withResponse (StatusResponse 200) (userState examplePostHookFailed)
      = withResponse (StatusResponse 200) ?landed"
    by (simp add: setHeader_def redirectingGoto_def withResponse_def userState_def
        examplePostHookFailed_def exampleNavigated_def exampleRestored_def exampleContext_def)
  have run: "executeHooks [setHeader, requireHeader] exampleRestored = (Inr (), exampleHooked)"
    by (simp add: executeHooks_def callHook_def userState_def example_defs world_defs
        exampleHooked_def)
  have fail: "executeHooks [failingHook, setHeader] exampleRestored
        = (Inl ?e, exampleHookFailed)"
    by (simp add: executeHooks_def callHook_def userState_def example_defs world_defs
        exampleHookFailed_def)
  obtain w' where "executeHooks [setHeader, requireHeader] exampleRestored = (Inr (), w')"
    "calls w' = calls exampleRestored @ hookCalls [setHeader, requireHeader] ?u (Suc (Suc 0))"
    using navigation_hooks_run_in_order
      [where hooks = "[setHeader, requireHeader]" and w = exampleRestored,
        THEN conjunct2, THEN conjunct1] all2
    by auto
  then have c2: "calls exampleHooked
      = calls exampleRestored @ [Hook 0 [], Hook 1 [(''x-test'', ''1'')]]"
    using run by (simp add: hookCalls_def u setHeader_def optionsOf_def numeral_2_eq_2)
  obtain w'' where "executeHooks [failingHook, setHeader] exampleRestored = (Inl ?e, w'')"
    "calls w'' = calls exampleRestored @ hookCalls [failingHook, setHeader] ?u (Suc 0)"
    using navigation_hooks_run_in_order
      [where hooks = "[failingHook, setHeader]" and w = exampleRestored and j = 0 and e = ?e,
        THEN conjunct2, THEN conjunct2, THEN conjunct1] first0
    by auto
  then have c3: "calls exampleHookFailed = calls exampleRestored @ [Hook 0 []]"
    using fail by (simp add: hookCalls_def u optionsOf_def)
  have c4: "\<exists>v logged. handleRequestFunction ?bad (exampleEnv True) exampleContext
        = (Inl ?e, Some v)
      \<and> calls v = calls exampleRestored @ [Hook 0 [], PageClose] @ logged"
    using navigation_hooks_run_in_order
      [where crawler = ?bad and env = "exampleEnv True" and ctx = exampleContext
        and p = examplePage and x = exampleRestored and ?j1.0 = 0 and ?e1.0 = ?e,
        THEN conjunct2, THEN conjunct2, THEN conjunct2, THEN conjunct1]
      page restore [of ?bad] first0 states crawlers
    by (auto simp: hookCalls_def u optionsOf_def)
  obtain v1 v2 where v: "executeHooks [setHeader, requireHeader] exampleRestored = (Inr (), v1)"
    "navigationHandler ?ok v1
       = (fst (redirectingGoto 200 (afterHooks [setHeader, requireHeader] ?u)), v2)"
    "calls v2 = calls exampleRestored @ hookCalls [setHeader, requireHeader] ?u (Suc (Suc 0))
       @ [GotoFunction (optionsOf (afterHooks [setHeader, requireHeader] ?u))]"
    using navigation_hooks_run_in_order
      [where crawler = ?ok and x = exampleRestored and goto = "redirectingGoto 200",
        THEN conjunct2, THEN conjunct2, THEN conjunct2, THEN conjunct2, THEN conjunct1]
      all2 states crawlers
    by auto
  have "v1 = exampleHooked" using v(1) run by simp
  then have c5: "\<exists>v2. navigationHandler ?ok exampleHooked = (Inr (StatusResponse 200), v2)
      \<and> calls v2 = calls exampleRestored
          @ [Hook 0 [], Hook 1 [(''x-test'', ''1'')], GotoFunction [(''x-test'', ''1'')]]"
    using v(2,3)
    by (simp add: hookCalls_def u setHeader_def requireHeader_def redirectingGoto_def
        optionsOf_def numeral_2_eq_2)
  have c6: "\<exists>v logged. handleRequestFunction postHookCrawler (exampleEnv True) exampleContext
        = (Inl ?e, Some v)
      \<and> calls v = calls exampleRestored
          @ [Hook 0 [], GotoFunction [(''x-test'', ''1'')], Hook 0 [(''x-test'', ''1'')],
             Hook 1 [(''x-test'', ''1'')], PageClose] @ logged"
    using navigation_hooks_run_in_order
      [where crawler = postHookCrawler and env = "exampleEnv True" and ctx = exampleContext
        and p = examplePage and x = exampleRestored and goto = "redirectingGoto 200"
        and resp = "StatusResponse 200" and u = ?landed and ?j2.0 = 1 and ?e2.0 = ?e,
        THEN conjunct2, THEN conjunct2, THEN conjunct2, THEN conjunct2, THEN conjunct2]
      page restore [of postHookCrawler] all1 landed first1 states crawlers
    by (auto simp: hookCalls_def u setHeader_def requireHeader_def redirectingGoto_def
        withResponse_def optionsOf_def numeral_2_eq_2)
  show ?thesis
    using all2 run c2 first0 fail c3 c4 c5 first1 same crawlers(4) c6 by simp
qed
section \<open>Session and proxy at browser launch\<close>

text \<open>
  Claim C9: at a browser launch of a crawler with a session pool and a proxy configuration,
  on a launch context that has no session and no proxy info yet, the proxy info is requested
  for the id of the session just obtained; the launch context's \<^verbatim>\<open>proxyUrl\<close> becomes the url
  of that proxy info, and the session and the proxy info are added by \<^verbatim>\<open>extend\<close>, which
  leaves every other key as it was.
\<close>

theorem launch_context_gets_session_scoped_proxy:
  assumes "sessionPool crawler \<noteq> None"
    and "proxyConfiguration crawler = Some pc"
    and "newProxyInfo pc (Some s) = Inr info"
    and "lc ''session'' = None"
    and "lc ''proxyInfo'' = None"
  shows "extendLaunchContext crawler (Inr s) lc =
           (Inr (),
            lc(''proxyUrl'' \<mapsto> StringValue (proxy_url info),
               ''session'' \<mapsto> SessionValue s,
               ''proxyInfo'' \<mapsto> ProxyInfoValue info),
            [GetSession, NewProxyInfo (Some s)])
         \<and> extendWith (lc(''proxyUrl'' \<mapsto> StringValue (proxy_url info)))
              [(''session'', SessionValue s), (''proxyInfo'', ProxyInfoValue info)] =
           (Inr (),
            lc(''proxyUrl'' \<mapsto> StringValue (proxy_url info),
               ''session'' \<mapsto> SessionValue s,
               ''proxyInfo'' \<mapsto> ProxyInfoValue info))"
  using assms by (simp add: extendLaunchContext_def)

theorem launch_context_gets_session_scoped_proxy_witness:
  "extendLaunchContext proxiedCrawler (Inr ''session-1'') [''proxyUrl'' \<mapsto> StringValue ''http://direct/''] =
     (Inr (),
      [''proxyUrl'' \<mapsto> StringValue ''http://direct/'',
       ''proxyUrl'' \<mapsto> StringValue ''http://proxy.example.com/session-1'',
       ''session'' \<mapsto> SessionValue ''session-1'',
       ''proxyInfo'' \<mapsto> ProxyInfoValue (ProxyInfo ''http://proxy.example.com/session-1'' (Some ''session-1''))],
      [GetSession, NewProxyInfo (Some ''session-1'')])"
  using launch_context_gets_session_scoped_proxy
    [of proxiedCrawler exampleProxyConfiguration "''session-1''"
      "ProxyInfo ''http://proxy.example.com/session-1'' (Some ''session-1'')"
      "[''proxyUrl'' \<mapsto> StringValue ''http://direct/'']"]
  by (simp add: proxiedCrawler_def exampleCrawler_def exampleProxyConfiguration_def)

text \<open>Without a session pool the proxy info is requested for no session.\<close>

lemma no_pool_proxy_unscoped:
  assumes "sessionPool crawler = None"
    and "proxyConfiguration crawler = Some pc"
    and "newProxyInfo pc None = Inr info"
    and "lc ''proxyInfo'' = None"
  shows "extendLaunchContext crawler getSession lc =
           (Inr (),
            lc(''proxyUrl'' \<mapsto> StringValue (proxy_url info),
               ''proxyInfo'' \<mapsto> ProxyInfoValue info),
            [NewProxyInfo None])"
  using assms by (simp add: extendLaunchContext_def)

section \<open>Retiring the browser of a retired session\<close>












end
